theory Spec2Isabelle
  imports Complex_Main
begin

section \<open>JavaScript values as parsed from JSON\<close>

text \<open>
  Credential records reach the program through \<^verbatim>\<open>JSON.parse\<close>, so a record is a JSON
  value. \<open>JUndefined\<close> is the value of a property that is not there; it also appears as a
  field value of the object literal that \<^verbatim>\<open>convertCredentialsFormat\<close> builds from
  possibly missing properties. An object is its list of own properties; the first binding
  of a key is the one a property read sees.
\<close>

datatype jsval =
    JUndefined
  | JNull
  | JBool bool
  | JNum rat
  | JStr string
  | JArr "jsval list"
  | JObj "(string \<times> jsval) list"

datatype js_error = TypeError

text \<open>
  \<^verbatim>\<open>v.name\<close>: reading a property of \<^verbatim>\<open>null\<close> or \<^verbatim>\<open>undefined\<close> throws a
  TypeError; on an object it is the own property or \<^verbatim>\<open>undefined\<close>; on the other values
  none of the property names used by the program exists, so the read gives
  \<^verbatim>\<open>undefined\<close>.
\<close>

fun getProp :: "jsval \<Rightarrow> string \<Rightarrow> js_error + jsval" where
  "getProp JUndefined k = Inl TypeError"
| "getProp JNull k = Inl TypeError"
| "getProp (JObj fs) k = Inr (case map_of fs k of None \<Rightarrow> JUndefined | Some v \<Rightarrow> v)"
| "getProp v k = Inr JUndefined"

text \<open>JavaScript truthiness: the falsy values are undefined, null, false, 0 and the empty string.\<close>

fun truthy :: "jsval \<Rightarrow> bool" where
  "truthy JUndefined = False"
| "truthy JNull = False"
| "truthy (JBool b) = b"
| "truthy (JNum n) = (n \<noteq> 0)"
| "truthy (JStr s) = (s \<noteq> [])"
| "truthy (JArr xs) = True"
| "truthy (JObj fs) = True"

text \<open>\<^verbatim>\<open>a || b\<close>: the left operand when it is truthy, the right operand otherwise.\<close>

definition js_or :: "jsval \<Rightarrow> jsval \<Rightarrow> jsval" where
  "js_or a b = (if truthy a then a else b)"

section \<open>convertCredentialsFormat\<close>

text \<open>
  The property reads of the function body, once the first read has succeeded (so the
  record is neither \<^verbatim>\<open>null\<close> nor \<^verbatim>\<open>undefined\<close>), cannot throw; \<open>propOf\<close> is the
  read on such a value.
\<close>

definition propOf :: "jsval \<Rightarrow> string \<Rightarrow> jsval" where
  "propOf v k = (case getProp v k of Inl e \<Rightarrow> JUndefined | Inr x \<Rightarrow> x)"

definition wrapLegacy :: "jsval \<Rightarrow> jsval" where
  "wrapLegacy credentials =
     JObj [(''claudeAiOauth'',
       JObj [(''accessToken'', propOf credentials ''access_token''),
             (''refreshToken'', propOf credentials ''refresh_token''),
             (''expiresAt'', js_or (propOf credentials ''expiry_date'') (propOf credentials ''expiresAt'')),
             (''scopes'', js_or (propOf credentials ''scopes'') (JArr [JStr ''user:inference''])),
             (''subscriptionType'', js_or (propOf credentials ''subscriptionType'') (JStr ''max''))])]"

definition convertCredentialsFormat :: "jsval \<Rightarrow> string \<Rightarrow> js_error + jsval" where
  "convertCredentialsFormat credentials targetPlatform =
     (case getProp credentials ''claudeAiOauth'' of
        Inl e \<Rightarrow> Inl e
      | Inr oauth \<Rightarrow>
          if targetPlatform = ''darwin'' then
            (if truthy oauth then Inr credentials
             else if truthy (propOf credentials ''access_token'') then Inr (wrapLegacy credentials)
             else if truthy (propOf credentials ''accessToken'') then
               Inr (JObj [(''claudeAiOauth'', credentials)])
             else Inr credentials)
          else
            (if truthy oauth then Inr credentials
             else if truthy (propOf credentials ''access_token'') then Inr (wrapLegacy credentials)
             else if truthy (propOf credentials ''accessToken'') then
               Inr (JObj [(''claudeAiOauth'', credentials)])
             else Inr credentials))"

text \<open>Running the conversion twice, the second run on the result of the first.\<close>

definition convertTwice :: "jsval \<Rightarrow> string \<Rightarrow> js_error + jsval" where
  "convertTwice r p =
     (case convertCredentialsFormat r p of
        Inl e \<Rightarrow> Inl e
      | Inr r' \<Rightarrow> convertCredentialsFormat r' p)"

text \<open>
  The conversion of a flat-legacy record as the specification words it, with the nullish
  operator \<^verbatim>\<open>??\<close> that falls back only on \<^verbatim>\<open>null\<close> and \<^verbatim>\<open>undefined\<close>.
\<close>

definition nullish :: "jsval \<Rightarrow> jsval \<Rightarrow> jsval" where
  "nullish a b = (if a = JUndefined \<or> a = JNull then b else a)"

definition specWrapLegacy :: "jsval \<Rightarrow> jsval" where
  "specWrapLegacy r =
     JObj [(''claudeAiOauth'',
       JObj [(''accessToken'', propOf r ''access_token''),
             (''refreshToken'', propOf r ''refresh_token''),
             (''expiresAt'', nullish (propOf r ''expiry_date'') (propOf r ''expiresAt'')),
             (''scopes'', nullish (propOf r ''scopes'') (JArr [JStr ''user:inference''])),
             (''subscriptionType'', nullish (propOf r ''subscriptionType'') (JStr ''max''))])]"

definition legacyExample :: jsval where
  "legacyExample =
     JObj [(''access_token'', JStr ''at''), (''refresh_token'', JStr ''rt''),
           (''expiry_date'', JNum 1700000000000), (''subscriptionType'', JStr '''')]"

section \<open>Snapshot path filter\<close>

text \<open>
  \<^verbatim>\<open>saveProfile\<close> and \<^verbatim>\<open>saveProfileSilent\<close> list a directory entry with
  \<^verbatim>\<open>readdir(sourcePath, { recursive: true })\<close> and, when the entry carries
  \<^verbatim>\<open>skipProjects\<close>, keep the relative paths for which the filter callback returns
  \<^verbatim>\<open>true\<close>; \<^verbatim>\<open>calculateFilesHash\<close> applies the first rule only. Relative paths are
  strings; \<open>CHR 0x5C\<close> is the backslash.
\<close>

definition startsWith :: "string \<Rightarrow> string \<Rightarrow> bool" where
  "startsWith s p = (take (length p) s = p)"

text \<open>\<^verbatim>\<open>file.split(/[/\\]/)\<close>: the segments between separators, empty segments kept.\<close>

definition isSep :: "char \<Rightarrow> bool" where
  "isSep c = (c = CHR ''/'' \<or> c = CHR 0x5C)"

fun splitPath :: "string \<Rightarrow> string list" where
  "splitPath [] = [[]]"
| "splitPath (c # cs) =
     (if isSep c then [] # splitPath cs
      else (case splitPath cs of [] \<Rightarrow> [[c]] | p # ps \<Rightarrow> (c # p) # ps))"

text \<open>
  The loop \<^verbatim>\<open>for (let i = 0; i < pathParts.length; i++)\<close> of the filter callback, from
  index \<open>i\<close> on: \<open>False\<close> is the callback's \<^verbatim>\<open>return false\<close> inside the loop,
  \<open>True\<close> the \<^verbatim>\<open>return true\<close> after it.
\<close>

function nestedLoop :: "string list \<Rightarrow> nat \<Rightarrow> bool" where
  "nestedLoop pathParts i =
     (if i < length pathParts then
        (if pathParts ! i = ''.claude'' \<and> i > 0 then False
         else nestedLoop pathParts (Suc i))
      else True)"
  by pat_completeness auto
termination
  by (relation "measure (\<lambda>(pathParts, i). length pathParts - i)") auto

declare nestedLoop.simps [simp del]

text \<open>The test of the first rule, the same in all three places.\<close>

definition excludesProjects :: "string \<Rightarrow> bool" where
  "excludesProjects file =
     (startsWith file ''projects/'' \<or> startsWith file (''projects'' @ [CHR 0x5C]))"

text \<open>The filter callback of \<^verbatim>\<open>saveProfile\<close> and \<^verbatim>\<open>saveProfileSilent\<close>.\<close>

definition archiveFilter :: "string \<Rightarrow> bool" where
  "archiveFilter file =
     (if excludesProjects file then False else nestedLoop (splitPath file) 0)"


text \<open>The filter callback of \<^verbatim>\<open>calculateFilesHash\<close>.\<close>

definition hashFilter :: "string \<Rightarrow> bool" where
  "hashFilter file =
     (\<not> startsWith file ''projects/'' \<and> \<not> startsWith file (''projects'' @ [CHR 0x5C]))"

text \<open>
  The configured backup entries. A property that the source leaves out of an entry
  (\<^verbatim>\<open>canSkipProjects\<close>, \<^verbatim>\<open>skipProjects\<close>) reads as \<^verbatim>\<open>undefined\<close>, which is
  falsy: \<open>False\<close> here. \<open>itemSkipProjects\<close> is the entry's \<^verbatim>\<open>skipProjects\<close>.
\<close>

record options =
  skipProjects :: bool

record backup_item =
  source :: string
  dest :: string
  canSkipProjects :: bool
  itemSkipProjects :: bool

definition BACKUP_PATHS :: "backup_item list" where
  "BACKUP_PATHS =
     [\<lparr>source = ''~/.claude'', dest = ''.claude'', canSkipProjects = True, itemSkipProjects = False\<rparr>,
      \<lparr>source = ''~/.claude.json'', dest = ''.claude.json'', canSkipProjects = False,
        itemSkipProjects = False\<rparr>,
      \<lparr>source = ''~/.claude.json.backup'', dest = ''.claude.json.backup'', canSkipProjects = False,
        itemSkipProjects = False\<rparr>]"

definition getBackupPaths :: "options \<Rightarrow> backup_item list" where
  "getBackupPaths opts =
     (if skipProjects opts then
        map (\<lambda>item. if canSkipProjects item then item\<lparr>itemSkipProjects := True\<rparr> else item)
          BACKUP_PATHS
      else BACKUP_PATHS)"

text \<open>
  The relative paths of a directory entry that go on to the archive (before the per-file
  \<^verbatim>\<open>isFile\<close> test), and those that go into the hash: filtered when the entry carries
  \<^verbatim>\<open>skipProjects\<close>, the whole listing otherwise.
\<close>

definition archiveFiles :: "backup_item \<Rightarrow> string list \<Rightarrow> string list" where
  "archiveFiles item files = (if itemSkipProjects item then filter archiveFilter files else files)"

definition hashFiles :: "backup_item \<Rightarrow> string list \<Rightarrow> string list" where
  "hashFiles item files = (if itemSkipProjects item then filter hashFilter files else files)"

text \<open>
  The first rule as the specification words it: some whole segment of the path, at any
  position, is \<^verbatim>\<open>projects\<close> (this includes the path that is the subtree itself).
\<close>

definition specExcludesSubtree :: "string \<Rightarrow> bool" where
  "specExcludesSubtree file = (''projects'' \<in> set (splitPath file))"

text \<open>
  The nested-root rule as the specification words it: some segment other than the first is
  the root container's own directory name, \<^verbatim>\<open>.claude\<close>.
\<close>

definition specNestedExcluded :: "string \<Rightarrow> bool" where
  "specNestedExcluded file = (''.claude'' \<in> set (tl (splitPath file)))"

section \<open>Archive size classification\<close>

text \<open>The size limits, in bytes.\<close>

definition GIST_SIZE_LIMIT_API :: nat where
  "GIST_SIZE_LIMIT_API = 40 * 1024 * 1024"

definition GIST_SIZE_LIMIT_WEB :: nat where
  "GIST_SIZE_LIMIT_WEB = 20 * 1024 * 1024"

definition GIST_SIZE_WARNING :: nat where
  "GIST_SIZE_WARNING = 10 * 1024 * 1024"

text \<open>
  \<^verbatim>\<open>Math.ceil(sizeBytes * 1.33)\<close> is a multiplication of IEEE 754 doubles followed by a
  ceiling. \<^verbatim>\<open>sizeBytes\<close> is a byte count, a natural number (exactly representable as a
  double below \<open>2 ^ 53\<close>). The double written \<^verbatim>\<open>1.33\<close> is \<open>mant133 / 2 ^ 52\<close>
  (bit pattern \<^verbatim>\<open>0x3FF547AE147AE148\<close>), so the exact product is
  \<open>sizeBytes * mant133 / 2 ^ 52\<close>. The multiplication returns the double nearest to the
  exact product, ties to the even significand: the numerator rounded to 53 significant bits.
  \<open>bitLength\<close> is the number of significant bits, \<open>roundAt s\<close> rounds to a multiple of
  \<open>2 ^ s\<close> (nearest, ties to even), \<open>round53\<close> keeps 53 bits.
\<close>

function bitLength :: "nat \<Rightarrow> nat" where
  "bitLength n = (if n = 0 then 0 else Suc (bitLength (n div 2)))"
  by pat_completeness auto
termination
  by (relation "measure id") auto

declare bitLength.simps [simp del]

definition roundAt :: "nat \<Rightarrow> nat \<Rightarrow> nat" where
  "roundAt s P =
     (let q = P div 2 ^ s; r = P mod 2 ^ s
      in (if 2 ^ s < 2 * r \<or> (2 * r = 2 ^ s \<and> odd q) then q + 1 else q) * 2 ^ s)"

definition round53 :: "nat \<Rightarrow> nat" where
  "round53 P = (if bitLength P \<le> 53 then P else roundAt (bitLength P - 53) P)"

definition mant133 :: nat where
  "mant133 = 5989787504402760"

definition ceilTimes133 :: "nat \<Rightarrow> nat" where
  "ceilTimes133 sizeBytes = (round53 (sizeBytes * mant133) + (2 ^ 52 - 1)) div 2 ^ 52"

text \<open>
  The result object of \<^verbatim>\<open>checkArchiveSize\<close>. Its two display strings
  (\<^verbatim>\<open>sizeFormatted\<close>, \<^verbatim>\<open>actualSizeFormatted\<close>) only feed log lines and are left
  out; \<open>size_raw\<close> is the field \<^verbatim>\<open>size\<close>.
\<close>

record size_check =
  size_raw :: nat
  actualUploadSize :: nat
  withinLimit :: bool
  isLarge :: bool
  exceedsWebLimit :: bool
  exceedsApiLimit :: bool

definition checkArchiveSize :: "nat \<Rightarrow> bool \<Rightarrow> size_check" where
  "checkArchiveSize sizeBytes isBase64Encoded =
     (let actualSize = (if isBase64Encoded then sizeBytes else ceilTimes133 sizeBytes)
      in \<lparr>size_raw = sizeBytes,
          actualUploadSize = actualSize,
          withinLimit = (actualSize \<le> GIST_SIZE_LIMIT_API),
          isLarge = (actualSize > GIST_SIZE_WARNING),
          exceedsWebLimit = (actualSize > GIST_SIZE_LIMIT_WEB),
          exceedsApiLimit = (actualSize > GIST_SIZE_LIMIT_API)\<rparr>)"

section \<open>Watch mode\<close>

text \<open>\<^verbatim>\<open>s.includes(sub)\<close>: \<open>sub\<close> occurs in \<open>s\<close> as a contiguous substring.\<close>

primrec includesStr :: "string \<Rightarrow> string \<Rightarrow> bool" where
  "includesStr [] sub = (sub = [])"
| "includesStr (c # cs) sub = (startsWith (c # cs) sub \<or> includesStr cs sub)"

text \<open>
  \<^verbatim>\<open>watchProfile\<close> runs on one event loop: watcher callbacks, timer callbacks and the
  continuations after each \<^verbatim>\<open>await\<close> interleave, and each runs to its next
  \<^verbatim>\<open>await\<close> without interruption. The model is the closure state of
  \<^verbatim>\<open>watchProfile\<close> together with the armed timers and the suspended handlers, and one
  transition per callback or continuation. A timer may fire at any time after it was armed
  and a pending call may settle at any time: the delays only restrict this, so what holds
  for every event sequence here holds for every real schedule.

  \<open>Debounce\<close> is the timer set in \<^verbatim>\<open>handleFileChange\<close>, \<open>Throttle\<close> the one set for the
  remaining wait. A suspended handler is at \<^verbatim>\<open>await saveProfileSilent(...)\<close>
  (\<open>AwaitSave\<close>) or at \<^verbatim>\<open>await calculateFilesHash(...)\<close> (\<open>AwaitHash\<close>); it
  remembers which callback it belongs to and the \<^verbatim>\<open>now\<close> that callback read.
\<close>

datatype timer_kind = Debounce | Throttle

datatype stage = AwaitSave | AwaitHash

datatype save_outcome = SaveOk | SaveFails string

text \<open>
  The events: a watcher callback; the keychain poll (with whether the hash differs); timer
  \<open>t\<close> firing when \<^verbatim>\<open>Date.now()\<close> is \<open>now\<close>; the save of the \<open>k\<close>-th suspended
  handler settling, at time \<open>now\<close>; its hash computation settling; SIGINT.
\<close>

datatype event =
    FileChange
  | KeychainPoll bool
  | TimerFires nat int
  | SaveReturns nat save_outcome int
  | HashReturns nat
  | Sigint

record watch_state =
  lastSaveTime :: int
  pendingSave :: bool
  saveInProgress :: bool
  changeDetected :: bool
  saveCount :: nat
  pendingSaveTimeout :: "nat option"
  timers :: "(nat \<times> timer_kind) list"
  nextTimer :: nat
  running :: "(timer_kind \<times> stage \<times> int) list"
  exited :: "nat option"

definition minSaveInterval :: int where
  "minSaveInterval = 30000"

definition initialWatch :: watch_state where
  "initialWatch =
     \<lparr>lastSaveTime = 0, pendingSave = False, saveInProgress = False, changeDetected = False,
      saveCount = 0, pendingSaveTimeout = None, timers = [], nextTimer = 0, running = [],
      exited = None\<rparr>"

definition setTimeout :: "timer_kind \<Rightarrow> watch_state \<Rightarrow> watch_state" where
  "setTimeout kind s =
     s\<lparr>timers := timers s @ [(nextTimer s, kind)],
       pendingSaveTimeout := Some (nextTimer s),
       nextTimer := Suc (nextTimer s)\<rparr>"

definition clearTimeout :: "nat \<Rightarrow> watch_state \<Rightarrow> watch_state" where
  "clearTimeout t s = s\<lparr>timers := filter (\<lambda>(i, k). i \<noteq> t) (timers s)\<rparr>"

definition handleFileChange :: "watch_state \<Rightarrow> watch_state" where
  "handleFileChange s =
     (let s1 = s\<lparr>changeDetected := True\<rparr>;
          s2 = (case pendingSaveTimeout s1 of None \<Rightarrow> s1 | Some t \<Rightarrow> clearTimeout t s1)
      in setTimeout Debounce s2)"

definition startSave :: "timer_kind \<Rightarrow> int \<Rightarrow> watch_state \<Rightarrow> watch_state" where
  "startSave kind now s =
     s\<lparr>saveInProgress := True, running := running s @ [(kind, AwaitSave, now)]\<rparr>"

text \<open>The \<^verbatim>\<open>finally\<close> block of a save handler, after which the handler is gone.\<close>

definition finishHandler :: "nat \<Rightarrow> watch_state \<Rightarrow> watch_state" where
  "finishHandler k s =
     s\<lparr>saveInProgress := False, running := take k (running s) @ drop (Suc k) (running s)\<rparr>"

text \<open>The body of the debounce timer callback, and of the throttle timer callback, up to the first \<^verbatim>\<open>await\<close>.\<close>

definition debounceFired :: "int \<Rightarrow> watch_state \<Rightarrow> watch_state" where
  "debounceFired now s =
     (if \<not> changeDetected s then s
      else
        (let s1 = s\<lparr>changeDetected := False\<rparr>;
             timeSinceLastSave = now - lastSaveTime s1
         in if timeSinceLastSave \<ge> minSaveInterval then
              (if saveInProgress s1 then s1 else startSave Debounce now s1)
            else if \<not> pendingSave s1 then setTimeout Throttle (s1\<lparr>pendingSave := True\<rparr>)
            else s1))"

definition throttleFired :: "int \<Rightarrow> watch_state \<Rightarrow> watch_state" where
  "throttleFired now s =
     (if pendingSave s then
        (if saveInProgress s then s\<lparr>pendingSave := False\<rparr>
         else startSave Throttle now s)
      else s)"

definition timerFires :: "nat \<Rightarrow> int \<Rightarrow> watch_state \<Rightarrow> watch_state" where
  "timerFires t now s =
     (case map_of (timers s) t of
        None \<Rightarrow> s
      | Some Debounce \<Rightarrow> debounceFired now (clearTimeout t s)
      | Some Throttle \<Rightarrow> throttleFired now (clearTimeout t s))"

text \<open>
  The continuation after \<^verbatim>\<open>await saveProfileSilent\<close>: on success it sets
  \<^verbatim>\<open>lastSaveTime\<close> and goes on to the hash; on an error whose message includes
  \<^verbatim>\<open>Profile too large\<close> the process exits with code 1; on any other error the
  \<^verbatim>\<open>catch\<close> and \<^verbatim>\<open>finally\<close> blocks run.
\<close>

definition saveReturns :: "nat \<Rightarrow> save_outcome \<Rightarrow> int \<Rightarrow> watch_state \<Rightarrow> watch_state" where
  "saveReturns k outcome now s =
     (if k < length (running s) then
        (case running s ! k of
           (kind, AwaitSave, t) \<Rightarrow>
             (case outcome of
                SaveOk \<Rightarrow>
                  s\<lparr>lastSaveTime := (case kind of Debounce \<Rightarrow> t | Throttle \<Rightarrow> now),
                    running := (running s)[k := (kind, AwaitHash, t)]\<rparr>
              | SaveFails msg \<Rightarrow>
                  if includesStr msg ''Profile too large'' then s\<lparr>exited := Some 1\<rparr>
                  else finishHandler k
                         (case kind of Debounce \<Rightarrow> s | Throttle \<Rightarrow> s\<lparr>pendingSave := False\<rparr>))
         | (kind, AwaitHash, t) \<Rightarrow> s)
      else s)"

definition hashReturns :: "nat \<Rightarrow> watch_state \<Rightarrow> watch_state" where
  "hashReturns k s =
     (if k < length (running s) then
        (case running s ! k of
           (kind, AwaitHash, t) \<Rightarrow>
             finishHandler k (s\<lparr>saveCount := saveCount s + 1, pendingSave := False\<rparr>)
         | (kind, AwaitSave, t) \<Rightarrow> s)
      else s)"

definition step :: "event \<Rightarrow> watch_state \<Rightarrow> watch_state" where
  "step e s =
     (if exited s \<noteq> None then s
      else case e of
        FileChange \<Rightarrow> handleFileChange s
      | KeychainPoll differs \<Rightarrow>
          (if saveInProgress s then s else if differs then handleFileChange s else s)
      | TimerFires t now \<Rightarrow> timerFires t now s
      | SaveReturns k outcome now \<Rightarrow> saveReturns k outcome now s
      | HashReturns k \<Rightarrow> hashReturns k s
      | Sigint \<Rightarrow> s\<lparr>exited := Some 0\<rparr>)"

definition runWatch :: "event list \<Rightarrow> watch_state" where
  "runWatch evs = foldl (\<lambda>s e. step e s) initialWatch evs"

text \<open>The saves in flight: the handlers suspended at \<^verbatim>\<open>await saveProfileSilent\<close>.\<close>

definition savesInFlight :: "watch_state \<Rightarrow> nat" where
  "savesInFlight s = length (filter (\<lambda>(kind, st, t). st = AwaitSave) (running s))"

definition watchInv :: "watch_state \<Rightarrow> bool" where
  "watchInv s = (length (running s) \<le> 1 \<and> (saveInProgress s = (running s \<noteq> [])))"

text \<open>
  ``Dropped, not queued'', for timer \<open>t\<close> completing at time \<open>now\<close> in state \<open>s\<close>:
  afterwards no timer is armed that was not armed before, and no pending save is recorded
  that was not recorded before.
\<close>

definition requestDropped :: "watch_state \<Rightarrow> nat \<Rightarrow> int \<Rightarrow> bool" where
  "requestDropped s t now =
     (timers (step (TimerFires t now) s) = filter (\<lambda>(i, k). i \<noteq> t) (timers s)
      \<and> (pendingSave (step (TimerFires t now) s) \<longrightarrow> pendingSave s))"

text \<open>
  The condition under which the debounce callback takes its branch
  \<^verbatim>\<open>else if (!pendingSave)\<close>: the timer is a debounce timer, a change was detected, less
  than the minimum interval has passed since \<^verbatim>\<open>lastSaveTime\<close> and no save is pending.
  That branch does not look at \<^verbatim>\<open>saveInProgress\<close>.
\<close>

definition defersSave :: "watch_state \<Rightarrow> nat \<Rightarrow> int \<Rightarrow> bool" where
  "defersSave s t now =
     (map_of (timers s) t = Some Debounce \<and> changeDetected s
      \<and> now - lastSaveTime s < minSaveInterval \<and> \<not> pendingSave s)"

text \<open>
  A change, the debounce timer, the save succeeding at 41000 (the handler goes on to
  \<^verbatim>\<open>await calculateFilesHash\<close> with \<^verbatim>\<open>saveInProgress\<close> still true), and another change.
\<close>

definition hashAwaitEvents :: "event list" where
  "hashAwaitEvents = [FileChange, TimerFires 0 40000, SaveReturns 0 SaveOk 41000, FileChange]"

section \<open>Store operations\<close>

text \<open>
  \<^verbatim>\<open>saveProfile\<close> and \<^verbatim>\<open>saveProfileSilent\<close> are sequences of calls into the file
  system, the archiver and the \<^verbatim>\<open>gh\<close> client. A run of an operation is the list of the
  effects it had, in order, and how it ended: it returned, it threw an \<^verbatim>\<open>Error\<close> with a
  message, or the process exited (\<^verbatim>\<open>process.exit\<close> ends the run at once; no
  \<^verbatim>\<open>catch\<close> or \<^verbatim>\<open>finally\<close> block runs after it).

  The effects recorded are the creation and the removal of the staging directory
  (\<open>MkdTemp\<close>, \<open>RmTemp\<close>), the network calls (\<^verbatim>\<open>findOrCreateGist\<close>, the upload
  \<^verbatim>\<open>gh gist edit --add\<close>, \<^verbatim>\<open>getDetailedAuthStatus\<close>, and for a restore
  \<^verbatim>\<open>gh gist view --files\<close> and \<^verbatim>\<open>gh api /gists/<id>\<close>), the copying of the
  unpacked files to their places (\<open>RestoreFiles\<close>) and error-level log lines. Of
  the log lines, the first of each error branch and the ones that depend on the options are
  kept, without their emoji prefix; progress lines are not recorded.
\<close>

datatype 'a outcome = Returned 'a | Thrown string | Exited nat

datatype effect =
    MkdTemp
  | RmTemp
  | FindOrCreateGist
  | Upload
  | AuthStatus
  | GistView
  | GistApi
  | RestoreFiles
  | LogError string

type_synonym run = "effect list \<times> unit outcome"

definition emit :: "effect \<Rightarrow> run" where
  "emit e = ([e], Returned ())"

definition skip :: run where
  "skip = ([], Returned ())"

definition throw :: "string \<Rightarrow> run" where
  "throw msg = ([], Thrown msg)"

definition processExit :: "nat \<Rightarrow> run" where
  "processExit n = ([], Exited n)"

text \<open>
  \<open>seq m n\<close> is \<^verbatim>\<open>m; n\<close>: \<open>n\<close> runs only when \<open>m\<close> returned.
  \<open>tryCatch m h\<close> is \<^verbatim>\<open>try { m } catch (error) { h(error.message) }\<close>, and
  \<open>tryFinally m fin\<close> is \<^verbatim>\<open>try { m } finally { fin }\<close>.
\<close>

definition seq :: "run \<Rightarrow> run \<Rightarrow> run" where
  "seq m n = (case m of (tr, Returned u) \<Rightarrow> (tr @ fst n, snd n) | (tr, r) \<Rightarrow> (tr, r))"

definition tryCatch :: "run \<Rightarrow> (string \<Rightarrow> run) \<Rightarrow> run" where
  "tryCatch m h = (case m of (tr, Thrown msg) \<Rightarrow> (tr @ fst (h msg), snd (h msg)) | (tr, r) \<Rightarrow> (tr, r))"

definition tryFinally :: "run \<Rightarrow> run \<Rightarrow> run" where
  "tryFinally m fin =
     (case m of
        (tr, Exited n) \<Rightarrow> (tr, Exited n)
      | (tr, r) \<Rightarrow> (case fin of (tr', Returned u) \<Rightarrow> (tr @ tr', r) | (tr', r') \<Rightarrow> (tr @ tr', r')))"

text \<open>
  What the operation finds outside itself: the results of \<^verbatim>\<open>verifyLocalFiles\<close>, of
  \<^verbatim>\<open>stat\<close> on each source path, of the keychain lookup, the size of the archive
  written, how \<^verbatim>\<open>findOrCreateGist\<close> ends (it returns the gist id, exits the process, or
  throws), the exit code and output of the upload command, and for each file-system call
  that is not wrapped in its own \<^verbatim>\<open>try\<close> whether it throws (\<open>Some\<close> the message).
  \<^verbatim>\<open>formatBytes\<close> computes with floating-point logarithms and is taken as given.
\<close>

datatype stat_result = NoEnt | StatError | IsDirectory | IsFile | IsOther

datatype io_point =
    AtMkdtemp | AtWriteKeychain | AtWriteStream | AtFinalize | AtStatZip | AtReadZip
  | AtWriteBase64 | AtRm

datatype gist_result = GistId string | GistExits | GistThrows string

record save_env =
  localValid :: bool
  statOf :: "string \<Rightarrow> stat_result"
  readdirFails :: bool
  isDarwin :: bool
  hasKeychainCreds :: bool
  ioError :: "io_point \<Rightarrow> string option"
  archiveSize :: nat
  gistResult :: gist_result
  uploadCode :: nat
  uploadStdout :: string
  formatBytes :: "nat \<Rightarrow> string"

definition io :: "save_env \<Rightarrow> io_point \<Rightarrow> run" where
  "io env p = (case ioError env p of None \<Rightarrow> skip | Some msg \<Rightarrow> throw msg)"

text \<open>\<^verbatim>\<open>PROFILE_NAME_REGEX = /^[a-z0-9-]+$/\<close>.\<close>

text \<open>
  The archive is written through a stream that has no \<^verbatim>\<open>'error'\<close> listener
  (\<^verbatim>\<open>archivePromise\<close> listens to the stream's \<^verbatim>\<open>'close'\<close> and to the archiver's
  \<^verbatim>\<open>'error'\<close> only). A failed write is an unhandled \<^verbatim>\<open>'error'\<close> event: the process
  ends with exit code 1, and no \<^verbatim>\<open>catch\<close> or \<^verbatim>\<open>finally\<close> block runs. An error of
  the archiver itself rejects the promise and is thrown at \<open>AtFinalize\<close>.
\<close>

definition writeArchive :: "save_env \<Rightarrow> run" where
  "writeArchive env =
     seq (case ioError env AtWriteStream of None \<Rightarrow> skip | Some msg \<Rightarrow> processExit 1)
         (io env AtFinalize)"

definition isNameChar :: "char \<Rightarrow> bool" where
  "isNameChar c =
     (let n = (of_char c :: nat) in (97 \<le> n \<and> n \<le> 122) \<or> (48 \<le> n \<and> n \<le> 57) \<or> n = 45)"

definition validateProfileName :: "string \<Rightarrow> run" where
  "validateProfileName name =
     (if name \<noteq> [] \<and> list_all isNameChar name then skip
      else throw (''Invalid profile name: '' @ name @
                  ''. Only lowercase letters, numbers, and hyphens are allowed.''))"

text \<open>Whether the loop over the backup entries sets \<^verbatim>\<open>hasFiles\<close> at this entry.\<close>

definition itemHasFiles :: "save_env \<Rightarrow> backup_item \<Rightarrow> bool" where
  "itemHasFiles env item =
     (case statOf env (source item) of
        IsDirectory \<Rightarrow> (if itemSkipProjects item then \<not> readdirFails env else True)
      | IsFile \<Rightarrow> True
      | NoEnt \<Rightarrow> False
      | StatError \<Rightarrow> False
      | IsOther \<Rightarrow> False)"

definition findOrCreateGist :: "gist_result \<Rightarrow> run" where
  "findOrCreateGist g =
     seq (emit FindOrCreateGist)
       (case g of
          GistId gistId \<Rightarrow> skip
        | GistExits \<Rightarrow> processExit 1
        | GistThrows msg \<Rightarrow> throw msg)"

definition rmTemp :: "save_env \<Rightarrow> run" where
  "rmTemp env = seq (io env AtRm) (emit RmTemp)"

definition tooLargeLine :: "save_env \<Rightarrow> string" where
  "tooLargeLine env =
     ''Profile is too large ('' @ formatBytes env (archiveSize env) @ '' compressed, '' @
     formatBytes env (actualUploadSize (checkArchiveSize (archiveSize env) False)) @
     '' when base64 encoded) for GitHub Gist''"

definition uploadFailed :: "save_env \<Rightarrow> bool" where
  "uploadFailed env = (uploadCode env \<noteq> 0 \<and> \<not> includesStr (uploadStdout env) ''Added'')"

definition saveUploadCheck :: "options \<Rightarrow> save_env \<Rightarrow> run" where
  "saveUploadCheck opts env =
     (if uploadFailed env then
        (if includesStr (uploadStdout env) ''422''
            \<or> includesStr (uploadStdout env) ''contents are too large''
            \<or> includesStr (uploadStdout env) ''too large'' then
           seq (emit (LogError (''Failed to upload: HTTP 422 - Content too large ('' @
                  formatBytes env (archiveSize env) @ '' compressed, '' @
                  formatBytes env (actualUploadSize (checkArchiveSize (archiveSize env) False)) @
                  '' when base64 encoded)'')))
          (seq (emit (LogError (''   GitHub Gist limit: '' @ formatBytes env GIST_SIZE_LIMIT_API)))
          (seq (emit (LogError (if skipProjects opts
                  then ''   Consider manually cleaning up ~/.claude/ directory''
                  else ''   Try using --skip-projects option to exclude the projects folder'')))
               (throw ''Profile too large'')))
         else if includesStr (uploadStdout env) ''rate limit'' then
           seq (emit (LogError ''GitHub API rate limit exceeded'')) (throw ''Rate limit exceeded'')
         else if includesStr (uploadStdout env) ''409''
            \<or> includesStr (uploadStdout env) ''Gist cannot be updated'' then
           seq (emit AuthStatus)
          (seq (emit (LogError ''Failed to upload: HTTP 409 - Gist cannot be updated''))
               (throw ''HTTP 409: Gist cannot be updated''))
         else throw (''Failed to upload profile to gist: '' @ uploadStdout env))
      else skip)"

definition noFilesExit :: "options \<Rightarrow> save_env \<Rightarrow> run" where
  "noFilesExit opts env =
     (if \<not> (list_ex (itemHasFiles env) (getBackupPaths opts)
             \<or> (isDarwin env \<and> hasKeychainCreds env)) then
        seq (emit (LogError ''No Claude configuration files found to backup''))
       (seq (rmTemp env) (processExit 1))
      else skip)"

definition saveSizeCheck :: "options \<Rightarrow> save_env \<Rightarrow> run" where
  "saveSizeCheck opts env =
     (if \<not> withinLimit (checkArchiveSize (archiveSize env) False) then
        seq (emit (LogError (tooLargeLine env)))
       (seq (emit (LogError (''   GitHub Gist limit: '' @ formatBytes env GIST_SIZE_LIMIT_API)))
       (seq (emit (LogError (if skipProjects opts
               then ''   Consider cleaning up ~/.claude/ directory manually''
               else ''   Consider using --skip-projects option to exclude the projects folder'')))
            (throw ''Profile too large'')))
      else skip)"

definition saveUploadStage :: "options \<Rightarrow> save_env \<Rightarrow> run" where
  "saveUploadStage opts env =
     seq (findOrCreateGist (gistResult env))
    (seq (io env AtReadZip)
    (seq (io env AtWriteBase64)
    (seq (emit Upload)
    (seq (saveUploadCheck opts env)
         (rmTemp env)))))"

definition saveProfileBody :: "string \<Rightarrow> options \<Rightarrow> save_env \<Rightarrow> run" where
  "saveProfileBody profileName opts env =
     seq (validateProfileName profileName)
    (seq (if \<not> localValid env then
            seq (emit (LogError ''Cannot create profile - essential files are missing''))
                (processExit 1)
          else skip)
    (seq (io env AtMkdtemp)
    (seq (emit MkdTemp)
    (seq (if isDarwin env \<and> hasKeychainCreds env then io env AtWriteKeychain else skip)
    (seq (noFilesExit opts env)
    (seq (writeArchive env)
    (seq (io env AtStatZip)
    (seq (saveSizeCheck opts env)
         (saveUploadStage opts env)))))))))"

definition saveProfile :: "string \<Rightarrow> options \<Rightarrow> save_env \<Rightarrow> run" where
  "saveProfile profileName opts env =
     tryCatch (saveProfileBody profileName opts env)
       (\<lambda>msg.
          seq (emit (LogError ''Error saving profile:''))
         (seq (if includesStr msg ''Profile too large'' \<or> includesStr msg ''Rate limit''
                  \<or> includesStr msg ''HTTP 409'' then skip
               else emit AuthStatus)
              (processExit 1)))"

definition silentTooLarge :: "options \<Rightarrow> save_env \<Rightarrow> string" where
  "silentTooLarge opts env =
     ''Profile too large ('' @ formatBytes env (archiveSize env) @ '' compressed, '' @
     formatBytes env (actualUploadSize (checkArchiveSize (archiveSize env) False)) @
     '' when base64 encoded) - GitHub Gist limit is '' @ formatBytes env GIST_SIZE_LIMIT_API @
     (if skipProjects opts
      then [CHR 0x0A] @ ''Consider manually cleaning up ~/.claude/ directory.''
      else [CHR 0x0A] @ ''Consider using --skip-projects option to exclude the projects folder.'')"

definition silentUploadCheck :: "options \<Rightarrow> save_env \<Rightarrow> run" where
  "silentUploadCheck opts env =
     (if uploadFailed env then
        (if includesStr (uploadStdout env) ''422''
            \<or> includesStr (uploadStdout env) ''contents are too large'' then
           throw (''Failed to upload: HTTP 422 - Content too large ('' @
                  formatBytes env (archiveSize env) @ '' compressed, '' @
                  formatBytes env (actualUploadSize (checkArchiveSize (archiveSize env) False)) @
                  '' when base64 encoded)'' @ [CHR 0x0A] @ ''GitHub Gist limit is '' @
                  formatBytes env GIST_SIZE_LIMIT_API @ ''.'' @ [CHR 0x0A] @
                  (if skipProjects opts
                   then ''Consider cleaning up ~/.claude/ directory manually.''
                   else ''Try using --skip-projects option to exclude the projects folder.''))
         else
           seq (emit AuthStatus)
             (if includesStr (uploadStdout env) ''409''
                 \<or> includesStr (uploadStdout env) ''Gist cannot be updated'' then
                seq (emit (LogError ''Failed to upload: HTTP 409 - Gist cannot be updated''))
                    (throw ''Failed to upload: HTTP 409 - Gist cannot be updated'')
              else throw (''Failed to upload: '' @ uploadStdout env)))
      else skip)"

definition silentSizeCheck :: "options \<Rightarrow> save_env \<Rightarrow> run" where
  "silentSizeCheck opts env =
     (if \<not> withinLimit (checkArchiveSize (archiveSize env) False) then
        throw (silentTooLarge opts env)
      else skip)"

definition silentUploadStage :: "options \<Rightarrow> save_env \<Rightarrow> run" where
  "silentUploadStage opts env =
     seq (findOrCreateGist (gistResult env))
    (seq (io env AtWriteBase64)
    (seq (emit Upload)
         (silentUploadCheck opts env)))"

definition saveProfileSilent :: "string \<Rightarrow> options \<Rightarrow> save_env \<Rightarrow> run" where
  "saveProfileSilent profileName opts env =
     seq (io env AtMkdtemp)
    (seq (emit MkdTemp)
       (tryFinally
          (seq (if isDarwin env \<and> hasKeychainCreds env then io env AtWriteKeychain else skip)
          (seq (writeArchive env)
          (seq (io env AtReadZip)
          (seq (silentSizeCheck opts env)
               (silentUploadStage opts env)))))
          (tryCatch (rmTemp env) (\<lambda>msg. skip))))"

text \<open>A run without the two network calls of a store: no gist lookup or creation, no upload.\<close>

definition noStoreNetwork :: "run \<Rightarrow> bool" where
  "noStoreNetwork r = (Upload \<notin> set (fst r) \<and> FindOrCreateGist \<notin> set (fst r))"

text \<open>
  A store of a 31 MiB archive on Linux, everything else going well; \<open>formatBytes\<close> is
  given at the three sizes it is applied to.
\<close>

definition bigArchiveEnv :: save_env where
  "bigArchiveEnv =
     \<lparr>localValid = True,
      statOf = (\<lambda>p. if p = ''~/.claude'' then IsDirectory
                     else if p = ''~/.claude.json'' then IsFile else NoEnt),
      readdirFails = False,
      isDarwin = False,
      hasKeychainCreds = False,
      ioError = (\<lambda>p. None),
      archiveSize = 31 * 1024 * 1024,
      gistResult = GistId ''abc123'',
      uploadCode = 0,
      uploadStdout = ''Added'',
      formatBytes = (\<lambda>n. if n = 32505856 then ''31 MB''
                          else if n = 43232789 then ''41.23 MB'' else ''40 MB'')\<rparr>"

section \<open>Verification of a downloaded profile\<close>

text \<open>
  \<^verbatim>\<open>verifyDownloadedProfile\<close> unpacks the downloaded archive into a directory of its own
  and inspects it. What it finds there is the input of the model: whether creating the
  directory threw, the exit code of \<^verbatim>\<open>unzip\<close>, the two credential exports
  (\<^verbatim>\<open>.claude/.credentials.json\<close>, the generic file, and
  \<^verbatim>\<open>.macos.credentials.json\<close>, the native macOS export) and the \<^verbatim>\<open>stat\<close> of
  \<^verbatim>\<open>.claude.json\<close>. A credential export is missing (\<^verbatim>\<open>stat\<close> fails), or it is there
  and reading or parsing it throws (\<open>Broken\<close>, with the message of the error), or it parses
  to a JSON value.
\<close>

record verification =
  valid :: bool
  issues :: "string list"

datatype cred_file = Missing | Broken string | Parsed jsval

record unpacked =
  mkdirError :: "string option"
  unzipCode :: nat
  linuxCreds :: cred_file
  macCreds :: cred_file
  configStat :: stat_result

text \<open>\<^verbatim>\<open>xs.join(sep)\<close>.\<close>

fun joinWith :: "string \<Rightarrow> string list \<Rightarrow> string" where
  "joinWith sep [] = []"
| "joinWith sep [x] = x"
| "joinWith sep (x # y # ys) = x @ sep @ joinWith sep (y # ys)"

text \<open>
  The loops over \<^verbatim>\<open>Object.entries(fields)\<close>: a field is missing when its value is
  \<^verbatim>\<open>undefined\<close> or \<^verbatim>\<open>null\<close>, present otherwise.
\<close>

definition isNullish :: "jsval \<Rightarrow> bool" where
  "isNullish v = (v = JUndefined \<or> v = JNull)"

definition missingFields :: "(string \<times> jsval) list \<Rightarrow> string list" where
  "missingFields flds = map fst (filter (\<lambda>(f, v). isNullish v) flds)"

definition presentFields :: "(string \<times> jsval) list \<Rightarrow> string list" where
  "presentFields flds = map fst (filter (\<lambda>(f, v). \<not> isNullish v) flds)"

text \<open>\<^verbatim>\<open>issues.push(msg)\<close> and \<^verbatim>\<open>valid = false\<close>.\<close>

definition pushIssue :: "string \<Rightarrow> verification \<Rightarrow> verification" where
  "pushIssue msg v = v\<lparr>issues := issues v @ [msg]\<rparr>"

definition invalidate :: "verification \<Rightarrow> verification" where
  "invalidate v = v\<lparr>valid := False\<rparr>"

text \<open>
  A credentials file that holds the JSON value \<^verbatim>\<open>null\<close> parses, and the first property
  read then throws a TypeError inside the same \<^verbatim>\<open>try\<close> block; this is its message.
\<close>

definition typeErrorMessage :: string where
  "typeErrorMessage = ''Cannot read properties of null (reading 'claudeAiOauth')''"

definition oauthFields :: "jsval \<Rightarrow> (string \<times> jsval) list" where
  "oauthFields oauth =
     [(''accessToken'', propOf oauth ''accessToken''),
      (''refreshToken'', propOf oauth ''refreshToken''),
      (''expiresAt'', propOf oauth ''expiresAt''),
      (''scopes'', propOf oauth ''scopes''),
      (''subscriptionType'', propOf oauth ''subscriptionType'')]"

definition linuxFields :: "jsval \<Rightarrow> (string \<times> jsval) list" where
  "linuxFields credentials =
     [(''access_token'', propOf credentials ''access_token''),
      (''refresh_token'', propOf credentials ''refresh_token''),
      (''expiry_date'', propOf credentials ''expiry_date''),
      (''scopes'', propOf credentials ''scopes''),
      (''subscriptionType'', propOf credentials ''subscriptionType'')]"

text \<open>The checks of a wrapped record, the same for both files up to the label of the issue.\<close>

definition checkOauth :: "string \<Rightarrow> jsval \<Rightarrow> verification \<Rightarrow> verification" where
  "checkOauth label oauth v =
     (let flds = oauthFields oauth;
          v1 = (if missingFields flds \<noteq> [] then
                  pushIssue (label @ [CHR 0x0A] @ ''   Present: claudeAiOauth.{'' @
                             joinWith '', '' (presentFields flds) @ ''}'' @ [CHR 0x0A] @
                             ''   Missing: claudeAiOauth.{'' @
                             joinWith '', '' (missingFields flds) @ ''}'') v
                else v)
      in if \<not> truthy (propOf oauth ''accessToken'') \<or> \<not> truthy (propOf oauth ''refreshToken'')
         then invalidate v1 else v1)"

definition checkLinuxCreds :: "cred_file \<Rightarrow> verification \<Rightarrow> verification" where
  "checkLinuxCreds f v =
     (case f of
        Missing \<Rightarrow> v
      | Broken msg \<Rightarrow> invalidate (pushIssue (''Linux credentials file is not valid JSON: '' @ msg) v)
      | Parsed credentials \<Rightarrow>
          (case getProp credentials ''claudeAiOauth'' of
             Inl e \<Rightarrow>
               invalidate (pushIssue (''Linux credentials file is not valid JSON: '' @
                                      typeErrorMessage) v)
           | Inr oauth \<Rightarrow>
               if truthy oauth then
                 checkOauth ''Linux credentials (.credentials.json):'' oauth v
               else if truthy (propOf credentials ''access_token'') then
                 (let flds = linuxFields credentials;
                      v1 = (if missingFields flds \<noteq> [] then
                              pushIssue (''Linux credentials (.credentials.json - old format):'' @
                                         [CHR 0x0A] @ ''   Present: '' @
                                         joinWith '', '' (presentFields flds) @ [CHR 0x0A] @
                                         ''   Missing: '' @
                                         joinWith '', '' (missingFields flds)) v
                            else v)
                  in if \<not> truthy (propOf credentials ''access_token'')
                        \<or> \<not> truthy (propOf credentials ''refresh_token'')
                     then invalidate v1 else v1)
               else
                 invalidate (pushIssue ''Linux credentials file has unrecognized format'' v)))"

definition checkMacCreds :: "cred_file \<Rightarrow> verification \<Rightarrow> verification" where
  "checkMacCreds f v =
     (case f of
        Missing \<Rightarrow> v
      | Broken msg \<Rightarrow> invalidate (pushIssue (''macOS credentials file is not valid JSON: '' @ msg) v)
      | Parsed credentials \<Rightarrow>
          (case getProp credentials ''claudeAiOauth'' of
             Inl e \<Rightarrow>
               invalidate (pushIssue (''macOS credentials file is not valid JSON: '' @
                                      typeErrorMessage) v)
           | Inr oauth \<Rightarrow>
               if truthy oauth then
                 checkOauth ''macOS credentials (.macos.credentials.json):'' oauth v
               else
                 invalidate (pushIssue ''macOS credentials missing claudeAiOauth wrapper object'' v)))"

definition checkConfig :: "stat_result \<Rightarrow> verification \<Rightarrow> verification" where
  "checkConfig st v =
     (if st = IsFile then v else invalidate (pushIssue ''Missing: Claude configuration'' v))"

definition verifyDownloadedProfile :: "unpacked \<Rightarrow> verification" where
  "verifyDownloadedProfile u =
     (case mkdirError u of
        Some msg \<Rightarrow> \<lparr>valid = False, issues = [msg]\<rparr>
      | None \<Rightarrow>
          if unzipCode u \<noteq> 0 then
            \<lparr>valid = False, issues = [''Failed to extract profile archive'']\<rparr>
          else
            (let v0 = \<lparr>valid = True, issues = []\<rparr>;
                 v1 = (if linuxCreds u = Missing \<and> macCreds u = Missing then
                         pushIssue ''Missing: Claude credentials (no .credentials.json or .macos.credentials.json found)''
                           (invalidate v0)
                       else checkMacCreds (macCreds u) (checkLinuxCreds (linuxCreds u) v0))
             in checkConfig (configStat u) v1))"

text \<open>
  The records that \<^verbatim>\<open>verifyDownloadedProfile\<close> accepts: in either file a wrapped record
  with truthy \<^verbatim>\<open>accessToken\<close> and \<^verbatim>\<open>refreshToken\<close>; in the generic file only
  (\<open>native\<close> false), also a flat-legacy record with truthy \<^verbatim>\<open>access_token\<close> and
  \<^verbatim>\<open>refresh_token\<close>.
\<close>

definition wrappedUsable :: "jsval \<Rightarrow> bool" where
  "wrappedUsable r =
     (truthy (propOf r ''claudeAiOauth'')
      \<and> truthy (propOf (propOf r ''claudeAiOauth'') ''accessToken'')
      \<and> truthy (propOf (propOf r ''claudeAiOauth'') ''refreshToken''))"

definition flatUsable :: "jsval \<Rightarrow> bool" where
  "flatUsable r =
     (\<not> truthy (propOf r ''claudeAiOauth'')
      \<and> truthy (propOf r ''access_token'') \<and> truthy (propOf r ''refresh_token''))"

definition acceptedIn :: "bool \<Rightarrow> cred_file \<Rightarrow> bool" where
  "acceptedIn native f =
     (case f of
        Missing \<Rightarrow> False
      | Broken msg \<Rightarrow> False
      | Parsed r \<Rightarrow> wrappedUsable r \<or> (\<not> native \<and> flatUsable r))"

text \<open>A profile saved on macOS: the native export with a full wrapped record, and the configuration file.\<close>

definition macProfile :: unpacked where
  "macProfile =
     \<lparr>mkdirError = None, unzipCode = 0, linuxCreds = Missing,
      macCreds = Parsed (JObj [(''claudeAiOauth'',
                   JObj [(''accessToken'', JStr ''at''), (''refreshToken'', JStr ''rt''),
                         (''expiresAt'', JNum 1700000000000),
                         (''scopes'', JArr [JStr ''user:inference'']),
                         (''subscriptionType'', JStr ''max'')])]),
      configStat = IsFile\<rparr>"

text \<open>
  ``Usable'' as the specification words it: the record resolves, through the conversion, to
  the wrapped shape with non-empty \<^verbatim>\<open>accessToken\<close> and \<^verbatim>\<open>refreshToken\<close>.
\<close>

definition specUsable :: "jsval \<Rightarrow> bool" where
  "specUsable r =
     (case convertCredentialsFormat r ''darwin'' of
        Inl e \<Rightarrow> False
      | Inr w \<Rightarrow>
          truthy (propOf (propOf w ''claudeAiOauth'') ''accessToken'')
          \<and> truthy (propOf (propOf w ''claudeAiOauth'') ''refreshToken''))"

text \<open>
  A profile whose native macOS export holds a flat-legacy record with both tokens, next to
  the configuration file.
\<close>

definition flatInNative :: unpacked where
  "flatInNative =
     \<lparr>mkdirError = None, unzipCode = 0, linuxCreds = Missing,
      macCreds = Parsed (JObj [(''access_token'', JStr ''at''), (''refresh_token'', JStr ''rt''),
                               (''expiry_date'', JNum 1700000000000)]),
      configStat = IsFile\<rparr>"

text \<open>
  The checks of \<^verbatim>\<open>verifyProfile\<close> (the \<^verbatim>\<open>--verify\<close> action) on the unpacked archive.
  It looks at four paths: the generic credentials file and the configuration file, both
  essential, the configuration backup and the \<^verbatim>\<open>.claude\<close> directory. It does not look
  at the native macOS export. Its outcome is the flag \<^verbatim>\<open>hasEssentialFiles\<close>, the list
  \<^verbatim>\<open>foundFiles\<close> and what it logs; of the log, the warning about a credentials file that
  cannot be parsed is kept.
\<close>

record listing =
  credentialsStat :: stat_result
  credentialsParse :: cred_file
  configurationStat :: stat_result
  backupStat :: stat_result
  claudeDirStat :: stat_result

record profile_report =
  hasEssentialFiles :: bool
  foundFiles :: "string list"
  warnings :: "string list"

text \<open>
  One round of the loop over the checks: \<^verbatim>\<open>stat\<close>, then the directory test or the file
  test; a \<^verbatim>\<open>stat\<close> that throws, and for a file check a path that is not a file, clear
  the flag when the check is essential. The credentials file is read and parsed inside a
  \<^verbatim>\<open>try\<close> of its own, which only logs.
\<close>

definition checkListed ::
  "string \<Rightarrow> bool \<Rightarrow> bool \<Rightarrow> stat_result \<Rightarrow> cred_file option \<Rightarrow> profile_report \<Rightarrow> profile_report" where
  "checkListed path essential isDirectoryCheck st creds rep =
     (case st of
        NoEnt \<Rightarrow> (if essential then rep\<lparr>hasEssentialFiles := False\<rparr> else rep)
      | StatError \<Rightarrow> (if essential then rep\<lparr>hasEssentialFiles := False\<rparr> else rep)
      | IsDirectory \<Rightarrow>
          (if isDirectoryCheck then rep\<lparr>foundFiles := foundFiles rep @ [path]\<rparr>
           else if essential then rep\<lparr>hasEssentialFiles := False\<rparr> else rep)
      | IsOther \<Rightarrow>
          (if isDirectoryCheck then rep
           else if essential then rep\<lparr>hasEssentialFiles := False\<rparr> else rep)
      | IsFile \<Rightarrow>
          (if isDirectoryCheck then rep
           else
             (let rep1 = rep\<lparr>foundFiles := foundFiles rep @ [path]\<rparr>
              in case creds of
                   Some (Broken msg) \<Rightarrow>
                     rep1\<lparr>warnings := warnings rep1 @ [''Could not parse credentials file'']\<rparr>
                 | Some (Parsed r) \<Rightarrow>
                     (case getProp r ''access_token'' of
                        Inl e \<Rightarrow>
                          rep1\<lparr>warnings := warnings rep1 @ [''Could not parse credentials file'']\<rparr>
                      | Inr x \<Rightarrow> rep1)
                 | Some Missing \<Rightarrow> rep1
                 | None \<Rightarrow> rep1)))"

definition verifyProfileChecks :: "listing \<Rightarrow> profile_report" where
  "verifyProfileChecks l =
     checkListed ''.claude'' False True (claudeDirStat l) None
    (checkListed ''.claude.json.backup'' False False (backupStat l) None
    (checkListed ''.claude.json'' True False (configurationStat l) None
    (checkListed ''.claude/.credentials.json'' True False (credentialsStat l)
       (Some (credentialsParse l))
       \<lparr>hasEssentialFiles = True, foundFiles = [], warnings = []\<rparr>)))"

section \<open>Restore\<close>

text \<open>
  \<^verbatim>\<open>restoreProfile\<close>, in the same terms as the store operations. Its surroundings: how
  \<^verbatim>\<open>findOrCreateGist\<close> ends, whether the listing of the gist names the profile,
  whether the gist data has the file and whether its content is empty, what the archive
  unpacks to, and for each call outside a \<^verbatim>\<open>try\<close> of its own whether it throws. The
  copying of the unpacked entries and the restoring of the credentials run inside their own
  \<^verbatim>\<open>try\<close> blocks and cannot end the operation; they are the single effect
  \<open>RestoreFiles\<close>. The bullet in front of a logged issue is written \<^verbatim>\<open>-\<close>.
\<close>

datatype restore_io = AtMkdtempR | AtParseGist | AtWriteZip | AtMkdirExtract | AtUnzip | AtRmR

record restore_env =
  restoreGist :: gist_result
  restoreIoError :: "restore_io \<Rightarrow> string option"
  listed :: bool
  fileFound :: bool
  dataEmpty :: bool
  contents :: unpacked

definition ioR :: "restore_env \<Rightarrow> restore_io \<Rightarrow> run" where
  "ioR env p = (case restoreIoError env p of None \<Rightarrow> skip | Some msg \<Rightarrow> throw msg)"

definition logIssues :: "string list \<Rightarrow> run" where
  "logIssues xs = (foldr (\<lambda>issue r. seq (emit (LogError (''   - '' @ issue))) r) xs skip)"

definition restoreProfileBody :: "string \<Rightarrow> options \<Rightarrow> restore_env \<Rightarrow> run" where
  "restoreProfileBody profileName opts env =
     seq (validateProfileName profileName)
    (seq (findOrCreateGist (restoreGist env))
    (seq (ioR env AtMkdtempR)
    (seq (emit MkdTemp)
    (seq (emit GistView)
    (seq (if \<not> listed env then
            seq (emit (LogError (''Profile '' @ [CHR 0x27] @ profileName @ [CHR 0x27] @ '' not found'')))
                (throw ''Profile not found'')
          else skip)
    (seq (emit GistApi)
    (seq (ioR env AtParseGist)
    (seq (if \<not> fileFound env then
            throw (''Profile '' @ [CHR 0x27] @ profileName @ [CHR 0x27] @ '' not found in gist'')
          else skip)
    (seq (if dataEmpty env then throw ''Downloaded profile data is empty'' else skip)
    (seq (ioR env AtWriteZip)
    (seq (if \<not> valid (verifyDownloadedProfile (contents env)) then
            seq (emit (LogError ''Cannot restore profile - verification failed''))
           (seq (logIssues (issues (verifyDownloadedProfile (contents env))))
                (throw ''Profile verification failed''))
          else skip)
    (seq (ioR env AtMkdirExtract)
    (seq (ioR env AtUnzip)
    (seq (emit RestoreFiles)
    (seq (ioR env AtRmR)
         (emit RmTemp))))))))))))))))"

definition restoreProfile :: "string \<Rightarrow> options \<Rightarrow> restore_env \<Rightarrow> run" where
  "restoreProfile profileName opts env =
     tryCatch (restoreProfileBody profileName opts env)
       (\<lambda>msg.
          seq (if \<not> includesStr msg ''Profile not found'' then
                 emit (LogError ''Error restoring profile:'')
               else skip)
              (processExit 1))"

text \<open>A restore of a profile whose archive holds the configuration file but no credential export.\<close>

definition noCredsRestore :: restore_env where
  "noCredsRestore =
     \<lparr>restoreGist = GistId ''abc123'', restoreIoError = (\<lambda>p. None), listed = True,
      fileFound = True, dataEmpty = False,
      contents = macProfile\<lparr>macCreds := Missing\<rparr>\<rparr>"

section \<open>Properties of the credential conversion\<close>

lemma getProp_obj_ok: "getProp (JObj fs) k = Inr (propOf (JObj fs) k)"
  by (simp add: propOf_def)

lemma getProp_Inr_propOf: "getProp r k = Inr v \<Longrightarrow> propOf r k = v"
  by (simp add: propOf_def)

lemma truthy_propOf_obj: "truthy (propOf c k) \<Longrightarrow> \<exists>fs. c = JObj fs"
  by (cases c) (simp_all add: propOf_def)

lemma propOf_singleton: "propOf (JObj [(k, v)]) k = v"
  by (simp add: propOf_def)

lemma propOf_wrapLegacy: "truthy (propOf (wrapLegacy r) ''claudeAiOauth'')"
  unfolding wrapLegacy_def by (simp only: propOf_singleton truthy.simps)

lemma convert_unfold:
  "getProp r ''claudeAiOauth'' = Inr v \<Longrightarrow>
   convertCredentialsFormat r p =
     (if truthy (propOf r ''claudeAiOauth'') then Inr r
      else if truthy (propOf r ''access_token'') then Inr (wrapLegacy r)
      else if truthy (propOf r ''accessToken'') then Inr (JObj [(''claudeAiOauth'', r)])
      else Inr r)"
  by (simp add: convertCredentialsFormat_def propOf_def)

lemma convert_wrapped_id:
  "truthy (propOf (JObj fs) ''claudeAiOauth'') \<Longrightarrow>
   convertCredentialsFormat (JObj fs) p = Inr (JObj fs)"
  by (simp add: convert_unfold [OF getProp_obj_ok])

lemma convert_result_stable:
  assumes "convertCredentialsFormat r p = Inr r'"
  shows "convertCredentialsFormat r' p = Inr r'"
proof -
  from assms obtain v where v: "getProp r ''claudeAiOauth'' = Inr v"
    by (cases "getProp r ''claudeAiOauth''") (simp_all add: convertCredentialsFormat_def)
  note u = convert_unfold [OF v, of p]
  consider (a) "truthy (propOf r ''claudeAiOauth'')"
    | (b) "\<not> truthy (propOf r ''claudeAiOauth'')" "truthy (propOf r ''access_token'')"
    | (c) "\<not> truthy (propOf r ''claudeAiOauth'')" "\<not> truthy (propOf r ''access_token'')"
          "truthy (propOf r ''accessToken'')"
    | (d) "\<not> truthy (propOf r ''claudeAiOauth'')" "\<not> truthy (propOf r ''access_token'')"
          "\<not> truthy (propOf r ''accessToken'')"
    by blast
  then show ?thesis
  proof cases
    case a
    with u assms show ?thesis by simp
  next
    case b
    with u assms have r': "r' = wrapLegacy r" by simp
    have "convertCredentialsFormat (wrapLegacy r) p = Inr (wrapLegacy r)"
      unfolding wrapLegacy_def
      by (rule convert_wrapped_id) (simp only: propOf_singleton truthy.simps)
    with r' show ?thesis by simp
  next
    case c
    with u assms have r': "r' = JObj [(''claudeAiOauth'', r)]" by simp
    from c(3) obtain fs where "r = JObj fs" using truthy_propOf_obj by blast
    then have "truthy (propOf (JObj [(''claudeAiOauth'', r)]) ''claudeAiOauth'')"
      by (simp only: propOf_singleton truthy.simps)
    then show ?thesis unfolding r' by (rule convert_wrapped_id)
  next
    case d
    with u assms show ?thesis by simp
  qed
qed

text \<open>
  C8. Credential conversion is idempotent: for every value \<open>r\<close> and every target
  platform \<open>p\<close>, converting the result of a conversion again for the same platform gives
  the result of the first conversion (a TypeError of the first run, which only
  \<^verbatim>\<open>null\<close> and \<^verbatim>\<open>undefined\<close> raise, is the outcome of both sides); and on every
  record (a JSON object) the conversion returns a record.
\<close>

theorem convert_idempotent:
  "convertTwice r p = convertCredentialsFormat r p
   \<and> (\<exists>r'. convertCredentialsFormat (JObj fs) p = Inr r')"
proof
  show "convertTwice r p = convertCredentialsFormat r p"
  proof (cases "convertCredentialsFormat r p")
    case (Inl e)
    then show ?thesis by (simp add: convertTwice_def)
  next
    case (Inr r')
    from convert_result_stable [OF Inr] Inr show ?thesis
      by (simp add: convertTwice_def)
  qed
  show "\<exists>r'. convertCredentialsFormat (JObj fs) p = Inr r'"
    by (simp add: convertCredentialsFormat_def)
qed

text \<open>
  C10. The conversion does not depend on the target platform: the branch for
  \<^verbatim>\<open>'darwin'\<close> and the branch for every other platform compute the same result (or the
  same TypeError) on every value.
\<close>

theorem convert_platform_independent:
  "convertCredentialsFormat r p1 = convertCredentialsFormat r p2"
  by (simp add: convertCredentialsFormat_def split: sum.splits)

text \<open>
  C5, as the specification states it, fails: the source combines the fields with
  \<^verbatim>\<open>||\<close>, not \<^verbatim>\<open>??\<close>. On a flat-legacy record whose \<^verbatim>\<open>subscriptionType\<close> is the
  empty string the code stores \<^verbatim>\<open>'max'\<close>, while the nullish reading keeps the empty
  string.
\<close>

theorem convert_legacy_nullish_counterexample:
  "propOf legacyExample ''access_token'' \<noteq> JUndefined
   \<and> propOf legacyExample ''claudeAiOauth'' = JUndefined
   \<and> convertCredentialsFormat legacyExample ''linux'' \<noteq> Inr (specWrapLegacy legacyExample)"
  by (simp add: legacyExample_def convertCredentialsFormat_def wrapLegacy_def specWrapLegacy_def
        propOf_def js_or_def nullish_def)

text \<open>
  C5, amended. For every record whose \<^verbatim>\<open>claudeAiOauth\<close> property is falsy and whose
  \<^verbatim>\<open>access_token\<close> property is truthy, and for every target platform, the conversion
  returns the wrapped record with accessToken = access_token, refreshToken = refresh_token,
  expiresAt = expiry_date || expiresAt, scopes = scopes || ['user:inference'] and
  subscriptionType = subscriptionType || 'max', where \<^verbatim>\<open>||\<close> falls back whenever its
  left operand is falsy.
\<close>

theorem convert_legacy_wrapped:
  assumes "\<not> truthy (propOf (JObj fs) ''claudeAiOauth'')"
    and "truthy (propOf (JObj fs) ''access_token'')"
  shows "convertCredentialsFormat (JObj fs) p =
     Inr (JObj [(''claudeAiOauth'',
       JObj [(''accessToken'', propOf (JObj fs) ''access_token''),
             (''refreshToken'', propOf (JObj fs) ''refresh_token''),
             (''expiresAt'',
                if truthy (propOf (JObj fs) ''expiry_date'') then propOf (JObj fs) ''expiry_date''
                else propOf (JObj fs) ''expiresAt''),
             (''scopes'',
                if truthy (propOf (JObj fs) ''scopes'') then propOf (JObj fs) ''scopes''
                else JArr [JStr ''user:inference'']),
             (''subscriptionType'',
                if truthy (propOf (JObj fs) ''subscriptionType'')
                then propOf (JObj fs) ''subscriptionType''
                else JStr ''max'')])])"
  using assms
  by (simp add: convertCredentialsFormat_def wrapLegacy_def js_or_def propOf_def)

theorem convert_legacy_wrapped_witness:
  "convertCredentialsFormat
     (JObj [(''access_token'', JStr ''at''), (''refresh_token'', JStr ''rt''),
            (''expiry_date'', JNum 1700000000000), (''subscriptionType'', JStr '''')]) ''darwin'' =
   Inr (JObj [(''claudeAiOauth'',
     JObj [(''accessToken'', JStr ''at''), (''refreshToken'', JStr ''rt''),
           (''expiresAt'', JNum 1700000000000),
           (''scopes'', JArr [JStr ''user:inference'']),
           (''subscriptionType'', JStr ''max'')])])"
  using convert_legacy_wrapped
    [of "[(''access_token'', JStr ''at''), (''refresh_token'', JStr ''rt''),
          (''expiry_date'', JNum 1700000000000), (''subscriptionType'', JStr '''')]" "''darwin''"]
  by (simp add: propOf_def)

section \<open>Properties of the snapshot path filter\<close>

lemma splitPath_nonempty [simp]: "splitPath s \<noteq> []"
  by (induction s) (auto split: list.splits)

lemma splitPath_sep: "isSep c \<Longrightarrow> splitPath (c # r) = [] # splitPath r"
  by simp

lemma splitPath_append:
  "\<forall>x \<in> set a. \<not> isSep x \<Longrightarrow> isSep c \<Longrightarrow> splitPath (a @ c # r) = a # splitPath r"
  by (induction a) (auto split: list.splits)

lemma splitPath_hd_nosep: "splitPath s = a # rest \<Longrightarrow> \<forall>x \<in> set a. \<not> isSep x"
  by (induction s arbitrary: a rest) (auto split: if_splits list.splits)

lemma splitPath_Cons2:
  "splitPath s = a # b # rest \<Longrightarrow> \<exists>c r. isSep c \<and> s = a @ c # r \<and> splitPath r = b # rest"
proof (induction s arbitrary: a)
  case Nil
  then show ?case by simp
next
  case (Cons x s)
  show ?case
  proof (cases "isSep x")
    case True
    with Cons.prems show ?thesis by auto
  next
    case False
    with Cons.prems obtain p where p: "splitPath s = p # b # rest" "a = x # p"
      by (auto split: list.splits)
    from Cons.IH [OF p(1)] p(2) show ?thesis by auto
  qed
qed

lemma nestedLoop_iff:
  "nestedLoop parts i = (\<not> (\<exists>j. i \<le> j \<and> 0 < j \<and> j < length parts \<and> parts ! j = ''.claude''))"
proof (induction parts i rule: nestedLoop.induct)
  case (1 pathParts i)
  show ?case
  proof (cases "i < length pathParts")
    case False
    then show ?thesis by (subst nestedLoop.simps) auto
  next
    case True
    show ?thesis
    proof (cases "pathParts ! i = ''.claude'' \<and> i > 0")
      case hit: True
      with True show ?thesis by (subst nestedLoop.simps) auto
    next
      case miss: False
      have "nestedLoop pathParts i = nestedLoop pathParts (Suc i)"
        using True miss by (subst nestedLoop.simps) auto
      also have "\<dots> = (\<not> (\<exists>j. Suc i \<le> j \<and> 0 < j \<and> j < length pathParts \<and> pathParts ! j = ''.claude''))"
        using "1.IH" True miss by blast
      also have "\<dots> = (\<not> (\<exists>j. i \<le> j \<and> 0 < j \<and> j < length pathParts \<and> pathParts ! j = ''.claude''))"
        using miss by (metis Suc_leD Suc_leI le_neq_implies_less)
      finally show ?thesis .
    qed
  qed
qed


lemma startsWith_iff: "startsWith s p = (\<exists>r. s = p @ r)"
  unfolding startsWith_def
  by (metis append_eq_conv_conj append_take_drop_id)

lemma projects_nosep: "\<forall>x \<in> set ''projects''. \<not> isSep x"
  by (simp add: isSep_def)

lemma excludesProjects_segments:
  "excludesProjects file = (\<exists>seg rest. splitPath file = ''projects'' # seg # rest)"
proof
  assume "excludesProjects file"
  then obtain c r where c: "isSep c" and f: "file = ''projects'' @ c # r"
    unfolding excludesProjects_def startsWith_iff isSep_def by auto
  have "splitPath file = ''projects'' # splitPath r"
    unfolding f by (rule splitPath_append [OF projects_nosep c])
  moreover obtain seg rest where "splitPath r = seg # rest"
    by (cases "splitPath r") simp_all
  ultimately show "\<exists>seg rest. splitPath file = ''projects'' # seg # rest" by simp
next
  assume "\<exists>seg rest. splitPath file = ''projects'' # seg # rest"
  then obtain seg rest where "splitPath file = ''projects'' # seg # rest" by blast
  from splitPath_Cons2 [OF this] obtain c r where "isSep c" "file = ''projects'' @ c # r"
    by blast
  then show "excludesProjects file"
    unfolding excludesProjects_def startsWith_iff isSep_def by auto
qed

lemma hashFilter_excludes: "hashFilter file = (\<not> excludesProjects file)"
  by (simp add: hashFilter_def excludesProjects_def)

lemma active_item:
  assumes "item \<in> set (getBackupPaths opts)" "skipProjects opts" "canSkipProjects item"
  shows "itemSkipProjects item"
  using assms by (auto simp: getBackupPaths_def BACKUP_PATHS_def split: if_splits)

lemma nestedLoop_set: "nestedLoop parts 0 = (''.claude'' \<notin> set (tl parts))"
proof -
  have "(\<exists>j. 0 < j \<and> j < length parts \<and> parts ! j = ''.claude'') = (''.claude'' \<in> set (tl parts))"
  proof
    assume "\<exists>j. 0 < j \<and> j < length parts \<and> parts ! j = ''.claude''"
    then obtain j where j: "0 < j" "j < length parts" "parts ! j = ''.claude''"
      by blast
    then obtain k where k: "j = Suc k" by (cases j) simp_all
    with j have "k < length (tl parts)" "tl parts ! k = ''.claude''"
      by (simp_all add: nth_tl)
    then show "''.claude'' \<in> set (tl parts)"
      by (metis nth_mem)
  next
    assume "''.claude'' \<in> set (tl parts)"
    then obtain k where k: "k < length (tl parts)" "tl parts ! k = ''.claude''"
      by (auto simp: in_set_conv_nth)
    then have "0 < Suc k \<and> Suc k < length parts \<and> parts ! Suc k = ''.claude''"
      by (simp add: nth_tl)
    then show "\<exists>j. 0 < j \<and> j < length parts \<and> parts ! j = ''.claude''" by blast
  qed
  then show ?thesis by (simp add: nestedLoop_iff)
qed

text \<open>The filter callback alone: what its loop decides, and how the two rules combine.\<close>

lemma nested_rule_callback:
  "((nestedLoop (splitPath file) 0 = False) =
      (\<exists>i. 0 < i \<and> i < length (splitPath file) \<and> splitPath file ! i = ''.claude''))
   \<and> (''.claude'' \<notin> set (tl (splitPath file)) \<longrightarrow> nestedLoop (splitPath file) 0)
   \<and> archiveFilter file = (\<not> excludesProjects file \<and> nestedLoop (splitPath file) 0)"
proof (intro conjI)
  show "(nestedLoop (splitPath file) 0 = False) =
      (\<exists>i. 0 < i \<and> i < length (splitPath file) \<and> splitPath file ! i = ''.claude'')"
    by (simp add: nestedLoop_iff, blast)
  show "''.claude'' \<notin> set (tl (splitPath file)) \<longrightarrow> nestedLoop (splitPath file) 0"
    by (simp add: nestedLoop_set)
  show "archiveFilter file = (\<not> excludesProjects file \<and> nestedLoop (splitPath file) 0)"
    by (simp add: archiveFilter_def)
qed

text \<open>
  C1, as stated, fails. With \<^verbatim>\<open>skipProjects\<close> requested and carried by the
  \<^verbatim>\<open>~/.claude\<close> entry, a path with a \<^verbatim>\<open>projects\<close> segment below the top level is
  kept by the archive filter and by the hash filter, and so is the path \<^verbatim>\<open>projects\<close>
  itself: the source tests \<^verbatim>\<open>file.startsWith('projects/')\<close>.
\<close>

theorem projects_rule_counterexample:
  "itemSkipProjects (hd (getBackupPaths \<lparr>skipProjects = True\<rparr>))
   \<and> specExcludesSubtree ''todos/projects/a.json''
   \<and> ''todos/projects/a.json'' \<in>
       set (archiveFiles (hd (getBackupPaths \<lparr>skipProjects = True\<rparr>)) [''todos/projects/a.json''])
   \<and> ''todos/projects/a.json'' \<in>
       set (hashFiles (hd (getBackupPaths \<lparr>skipProjects = True\<rparr>)) [''todos/projects/a.json''])
   \<and> specExcludesSubtree ''projects''
   \<and> ''projects'' \<in> set (archiveFiles (hd (getBackupPaths \<lparr>skipProjects = True\<rparr>)) [''projects''])"
  by (simp add: getBackupPaths_def BACKUP_PATHS_def specExcludesSubtree_def isSep_def
        archiveFiles_def hashFiles_def hashFilter_def archiveFilter_def excludesProjects_def
        startsWith_def nestedLoop_set)

text \<open>
  C1, amended. When subtree exclusion is active (\<^verbatim>\<open>options.skipProjects\<close> is true and the
  entry allows it), the hash keeps exactly the listed paths that do not have
  \<^verbatim>\<open>projects\<close> as their whole first segment followed by at least one more segment, and
  the archive keeps exactly those of them that also have no \<^verbatim>\<open>.claude\<close> segment after
  the first. Matching is by whole segment, never by substring, and only the first segment
  is looked at.
\<close>

theorem projects_rule_first_segment:
  assumes "item \<in> set (getBackupPaths opts)" and "skipProjects opts" and "canSkipProjects item"
  shows "(file \<in> set (hashFiles item files) \<longleftrightarrow>
            file \<in> set files \<and> \<not> (\<exists>seg rest. splitPath file = ''projects'' # seg # rest))
       \<and> (file \<in> set (archiveFiles item files) \<longleftrightarrow>
            file \<in> set files \<and> \<not> (\<exists>seg rest. splitPath file = ''projects'' # seg # rest)
            \<and> ''.claude'' \<notin> set (tl (splitPath file)))"
proof -
  have a: "itemSkipProjects item" by (rule active_item [OF assms])
  show ?thesis
    unfolding hashFiles_def archiveFiles_def
    using a
    by (simp add: hashFilter_excludes archiveFilter_def excludesProjects_segments nestedLoop_set)
qed

theorem projects_rule_first_segment_witness:
  "''projects/p1/chat.jsonl'' \<notin>
      set (archiveFiles (hd (getBackupPaths \<lparr>skipProjects = True\<rparr>))
             [''settings.json'', ''projects/p1/chat.jsonl'', ''projects-old/x''])
   \<and> ''projects-old/x'' \<in>
      set (archiveFiles (hd (getBackupPaths \<lparr>skipProjects = True\<rparr>))
             [''settings.json'', ''projects/p1/chat.jsonl'', ''projects-old/x''])"
  using projects_rule_first_segment
     [of "hd (getBackupPaths \<lparr>skipProjects = True\<rparr>)" "\<lparr>skipProjects = True\<rparr>"
         "''projects/p1/chat.jsonl''" "[''settings.json'', ''projects/p1/chat.jsonl'', ''projects-old/x'']"]
    projects_rule_first_segment
     [of "hd (getBackupPaths \<lparr>skipProjects = True\<rparr>)" "\<lparr>skipProjects = True\<rparr>"
         "''projects-old/x''" "[''settings.json'', ''projects/p1/chat.jsonl'', ''projects-old/x'']"]
  by (simp add: getBackupPaths_def BACKUP_PATHS_def isSep_def)

lemma specNested_index:
  "specNestedExcluded file =
     (\<exists>i. 0 < i \<and> i < length (splitPath file) \<and> splitPath file ! i = ''.claude'')"
proof -
  have "specNestedExcluded file = (\<not> nestedLoop (splitPath file) 0)"
    by (simp add: specNestedExcluded_def nestedLoop_set)
  also have "\<dots> = (\<exists>j. 0 \<le> j \<and> 0 < j \<and> j < length (splitPath file)
                        \<and> splitPath file ! j = ''.claude'')"
    by (simp only: nestedLoop_iff not_not)
  also have "\<dots> = (\<exists>i. 0 < i \<and> i < length (splitPath file) \<and> splitPath file ! i = ''.claude'')"
    by blast
  finally show ?thesis .
qed

text \<open>
  C4, as stated, fails: the rule is applied only where the entry carries
  \<^verbatim>\<open>skipProjects\<close>. In a plain store the directory is added whole with
  \<^verbatim>\<open>archive.directory\<close>, so a path with a nested \<^verbatim>\<open>.claude\<close> segment is archived;
  and \<^verbatim>\<open>calculateFilesHash\<close> never applies the rule, with or without
  \<^verbatim>\<open>skipProjects\<close>.
\<close>

theorem nested_rule_counterexample:
  "specNestedExcluded ''todos/.claude/x''
   \<and> \<not> itemSkipProjects (hd (getBackupPaths \<lparr>skipProjects = False\<rparr>))
   \<and> ''todos/.claude/x'' \<in>
       set (archiveFiles (hd (getBackupPaths \<lparr>skipProjects = False\<rparr>)) [''todos/.claude/x''])
   \<and> itemSkipProjects (hd (getBackupPaths \<lparr>skipProjects = True\<rparr>))
   \<and> ''todos/.claude/x'' \<in>
       set (hashFiles (hd (getBackupPaths \<lparr>skipProjects = True\<rparr>)) [''todos/.claude/x''])"
  by (simp add: specNestedExcluded_def isSep_def getBackupPaths_def BACKUP_PATHS_def
      archiveFiles_def hashFiles_def hashFilter_def startsWith_def)

text \<open>
  C4, amended. When subtree exclusion is active for the entry (\<^verbatim>\<open>options.skipProjects\<close>
  is true and the entry allows it), the archive filter excludes a listed path that the
  projects rule keeps exactly when some segment other than the first is \<^verbatim>\<open>.claude\<close>;
  a path whose only \<^verbatim>\<open>.claude\<close> segment is the first is never excluded by this rule.
  The hash keeps every listed path that the projects rule keeps, nested or not, and an
  entry without \<^verbatim>\<open>skipProjects\<close> is archived and hashed whole.
\<close>

theorem nested_rule_when_skipping:
  assumes "item \<in> set (getBackupPaths opts)" and "skipProjects opts" and "canSkipProjects item"
  shows "(file \<in> set files \<and> \<not> excludesProjects file \<longrightarrow>
            (file \<notin> set (archiveFiles item files)) = specNestedExcluded file)
       \<and> specNestedExcluded file =
            (\<exists>i. 0 < i \<and> i < length (splitPath file) \<and> splitPath file ! i = ''.claude'')
       \<and> (file \<in> set (hashFiles item files)) = (file \<in> set files \<and> \<not> excludesProjects file)
       \<and> (\<not> itemSkipProjects other \<longrightarrow>
            archiveFiles other files = files \<and> hashFiles other files = files)"
proof (intro conjI impI)
  have a: "itemSkipProjects item" by (rule active_item [OF assms])
  show "(file \<notin> set (archiveFiles item files)) = specNestedExcluded file"
    if "file \<in> set files \<and> \<not> excludesProjects file"
    using that a
    by (simp add: archiveFiles_def archiveFilter_def nestedLoop_set specNestedExcluded_def)
  show "specNestedExcluded file =
            (\<exists>i. 0 < i \<and> i < length (splitPath file) \<and> splitPath file ! i = ''.claude'')"
    by (rule specNested_index)
  show "(file \<in> set (hashFiles item files)) = (file \<in> set files \<and> \<not> excludesProjects file)"
    using a by (simp add: hashFiles_def hashFilter_excludes)
  show "archiveFiles other files = files" if "\<not> itemSkipProjects other"
    using that by (simp add: archiveFiles_def)
  show "hashFiles other files = files" if "\<not> itemSkipProjects other"
    using that by (simp add: hashFiles_def)
qed


theorem nested_rule_when_skipping_witness:
  "''todos/.claude/x'' \<notin>
      set (archiveFiles (hd (getBackupPaths \<lparr>skipProjects = True\<rparr>))
             [''.claude/settings.json'', ''todos/.claude/x''])
   \<and> ''.claude/settings.json'' \<in>
      set (archiveFiles (hd (getBackupPaths \<lparr>skipProjects = True\<rparr>))
             [''.claude/settings.json'', ''todos/.claude/x''])
   \<and> ''todos/.claude/x'' \<in>
      set (hashFiles (hd (getBackupPaths \<lparr>skipProjects = True\<rparr>))
             [''.claude/settings.json'', ''todos/.claude/x''])"
proof -
  have m: "hd (getBackupPaths \<lparr>skipProjects = True\<rparr>) \<in> set (getBackupPaths \<lparr>skipProjects = True\<rparr>)"
    "skipProjects \<lparr>skipProjects = True\<rparr>"
    "canSkipProjects (hd (getBackupPaths \<lparr>skipProjects = True\<rparr>))"
    by (simp_all add: getBackupPaths_def BACKUP_PATHS_def)
  have e: "\<not> excludesProjects ''todos/.claude/x''" "\<not> excludesProjects ''.claude/settings.json''"
    by (simp_all add: excludesProjects_def startsWith_def)
  have n: "specNestedExcluded ''todos/.claude/x''" "\<not> specNestedExcluded ''.claude/settings.json''"
    by (simp_all add: specNestedExcluded_def isSep_def)
  from nested_rule_when_skipping [OF m, of "''todos/.claude/x''"
         "[''.claude/settings.json'', ''todos/.claude/x'']"]
    nested_rule_when_skipping [OF m, of "''.claude/settings.json''"
         "[''.claude/settings.json'', ''todos/.claude/x'']"]
    e n
  show ?thesis by simp
qed

section \<open>Properties of the size classification\<close>

lemma bitLength_bounds: "0 < n \<Longrightarrow> 2 ^ (bitLength n - 1) \<le> n \<and> n < 2 ^ bitLength n"
proof (induction n rule: bitLength.induct)
  case (1 n)
  show ?case
  proof (cases "n div 2 = 0")
    case True
    with "1.prems" have "n = 1" by (simp add: div_eq_0_iff)  
    then show ?thesis by (simp add: bitLength.simps)
  next
    case False
    with "1.IH" "1.prems" have ih: "2 ^ (bitLength (n div 2) - 1) \<le> n div 2" "n div 2 < 2 ^ bitLength (n div 2)"
      by auto
    have b: "bitLength n = Suc (bitLength (n div 2))" using "1.prems" by (subst bitLength.simps) simp
    have pos: "0 < bitLength (n div 2)" using False by (subst bitLength.simps) simp
    then obtain k where k: "bitLength (n div 2) = Suc k" by (cases "bitLength (n div 2)") simp_all
    from ih k have "2 ^ k \<le> n div 2" "n div 2 < 2 ^ Suc k" by simp_all
    moreover have "2 * (n div 2) \<le> n" "n < 2 * (n div 2) + 2" by presburger+
    ultimately have "2 ^ Suc k \<le> n" "n < 2 ^ Suc (Suc k)" by simp_all
    then show ?thesis by (simp add: b k)
  qed
qed

lemma bitLength_mono: "m \<le> n \<Longrightarrow> bitLength m \<le> bitLength n"
proof (induction n arbitrary: m rule: bitLength.induct)
  case (1 n)
  show ?case
  proof (cases "m = 0")
    case True
    then show ?thesis by (subst bitLength.simps) simp
  next
    case False
    with "1.prems" have n: "n \<noteq> 0" by simp
    have "m div 2 \<le> n div 2" using "1.prems" by (rule div_le_mono)
    from "1.IH" [OF n this] show ?thesis
      using False n by (subst bitLength.simps, subst (2) bitLength.simps) simp
  qed
qed


lemma bitLength_eqI: "2 ^ k \<le> n \<Longrightarrow> n < 2 ^ Suc k \<Longrightarrow> bitLength n = Suc k"
proof -
  assume a: "2 ^ k \<le> n" "n < 2 ^ Suc k"
  then have pos: "0 < n" by (metis less_le_trans zero_less_numeral zero_less_power)
  from bitLength_bounds [OF pos] have b: "2 ^ (bitLength n - 1) \<le> n" "n < 2 ^ bitLength n" by simp_all
  have "(2::nat) ^ k < 2 ^ bitLength n" using a(1) b(2) by (rule le_less_trans)
  then have 1: "k < bitLength n" by (rule power_less_imp_less_exp [rotated]) simp
  have "(2::nat) ^ (bitLength n - 1) < 2 ^ Suc k" using b(1) a(2) by (rule le_less_trans)
  then have 2: "bitLength n - 1 < Suc k" by (rule power_less_imp_less_exp [rotated]) simp
  from 1 2 show ?thesis by simp
qed

lemma roundAt_lower: "a * 2 ^ s \<le> P \<Longrightarrow> a * 2 ^ s \<le> roundAt s P"
proof -
  assume "a * 2 ^ s \<le> P"
  then have "a \<le> P div 2 ^ s" by (simp add: less_eq_div_iff_mult_less_eq)
  then have "a * 2 ^ s \<le> (P div 2 ^ s) * 2 ^ s" by simp
  also have "\<dots> \<le> roundAt s P" by (simp add: roundAt_def Let_def)
  finally show ?thesis .
qed

lemma roundAt_upper: "P \<le> b * 2 ^ s \<Longrightarrow> roundAt s P \<le> b * 2 ^ s"
proof (cases "P = b * 2 ^ s")
  case True
  then show ?thesis by (simp add: roundAt_def Let_def)
next
  case False
  assume "P \<le> b * 2 ^ s"
  with False have "P < b * 2 ^ s" by simp
  then have "P div 2 ^ s < b" by (simp add: div_less_iff_less_mult)
  then have "P div 2 ^ s + 1 \<le> b" by simp
  then have "(P div 2 ^ s + 1) * 2 ^ s \<le> b * 2 ^ s" by (rule mult_le_mono1)
  moreover have "roundAt s P \<le> (P div 2 ^ s + 1) * 2 ^ s" by (simp add: roundAt_def Let_def)
  ultimately show ?thesis by (rule_tac le_trans)
qed

lemma roundAt_mono:
  assumes "P1 \<le> P2"
  shows "roundAt s P1 \<le> roundAt s P2"
proof -
  define d :: nat where "d = 2 ^ s"
  have dpos: "0 < d" by (simp add: d_def)
  have q: "P1 div d \<le> P2 div d" using assms by (rule div_le_mono)
  show ?thesis
  proof (cases "P1 div d < P2 div d")
    case True
    have "roundAt s P1 \<le> (P1 div d + 1) * d" by (simp add: roundAt_def Let_def d_def)
    also have "\<dots> \<le> (P2 div d) * d" using True by (intro mult_le_mono1) simp
    also have "\<dots> \<le> roundAt s P2" by (simp add: roundAt_def Let_def d_def)
    finally show ?thesis .
  next
    case False
    with q have e: "P1 div d = P2 div d" by simp
    have "P1 = (P1 div d) * d + P1 mod d" "P2 = (P2 div d) * d + P2 mod d" by simp_all
    with assms e have r: "P1 mod d \<le> P2 mod d" by (metis add_le_cancel_left)
    show ?thesis
      using e r unfolding roundAt_def Let_def d_def [symmetric]
      by auto
  qed
qed


lemma bitLength_0 [simp]: "bitLength 0 = 0"
  by (subst bitLength.simps) simp

lemma round53_bounds:
  assumes "0 < P"
  shows "2 ^ (bitLength P - 1) \<le> round53 P \<and> round53 P \<le> 2 ^ bitLength P"
proof (cases "bitLength P \<le> 53")
  case True
  with bitLength_bounds [OF assms] show ?thesis by (simp add: round53_def)
next
  case False
  define s where "s = bitLength P - 53"
  from False have L: "bitLength P = 53 + s" "bitLength P - 1 = 52 + s" by (simp_all add: s_def)
  from bitLength_bounds [OF assms] have "(2::nat) ^ (52 + s) \<le> P" "P < 2 ^ (53 + s)"
    unfolding L(2) unfolding L(1) by simp_all
  then have "(2::nat) ^ 52 * 2 ^ s \<le> P" "P \<le> 2 ^ 53 * 2 ^ s"
    by (simp_all only: power_add less_imp_le)
  then have "(2::nat) ^ 52 * 2 ^ s \<le> roundAt s P" "roundAt s P \<le> 2 ^ 53 * 2 ^ s"
    by (simp_all add: roundAt_lower roundAt_upper)
  then have "(2::nat) ^ (bitLength P - 1) \<le> roundAt s P" "roundAt s P \<le> 2 ^ bitLength P"
    unfolding L(2) unfolding L(1) by (simp_all only: power_add)
  with False show ?thesis by (simp add: round53_def s_def)
qed

lemma round53_mono:
  assumes "P1 \<le> P2"
  shows "round53 P1 \<le> round53 P2"
proof (cases "P1 = 0")
  case True
  then show ?thesis by (simp add: round53_def)
next
  case False
  then have p1: "0 < P1" and p2: "0 < P2" using assms by simp_all
  have le: "bitLength P1 \<le> bitLength P2" using assms by (rule bitLength_mono)
  show ?thesis
  proof (cases "bitLength P1 = bitLength P2")
    case True
    then show ?thesis using assms by (simp add: round53_def roundAt_mono)
  next
    case False
    with le have "bitLength P1 \<le> bitLength P2 - 1" by simp
    then have "(2::nat) ^ bitLength P1 \<le> 2 ^ (bitLength P2 - 1)"
      by (rule power_increasing) simp
    with round53_bounds [OF p1] round53_bounds [OF p2] show ?thesis by linarith
  qed
qed

lemma ceilTimes133_mono: "a \<le> b \<Longrightarrow> ceilTimes133 a \<le> ceilTimes133 b"
  unfolding ceilTimes133_def
  by (intro div_le_mono add_le_mono1 round53_mono mult_le_mono1)

lemma actualUploadSize_mono:
  "a \<le> b \<Longrightarrow> actualUploadSize (checkArchiveSize a e) \<le> actualUploadSize (checkArchiveSize b e)"
  by (simp add: checkArchiveSize_def Let_def ceilTimes133_mono)

text \<open>
  C9. The size classification is monotonic in the raw size: for byte lengths \<open>a \<le> b\<close> and
  the same \<^verbatim>\<open>isBase64Encoded\<close> flag, if \<open>a\<close> is large, exceeds the web limit or exceeds
  the API limit then so does \<open>b\<close>, and if \<open>b\<close> is within the API limit then so is \<open>a\<close>
  (the estimated upload size itself never decreases).
\<close>

theorem checkArchiveSize_monotone:
  assumes "a \<le> b"
  shows "(isLarge (checkArchiveSize a e) \<longrightarrow> isLarge (checkArchiveSize b e))
       \<and> (exceedsWebLimit (checkArchiveSize a e) \<longrightarrow> exceedsWebLimit (checkArchiveSize b e))
       \<and> (exceedsApiLimit (checkArchiveSize a e) \<longrightarrow> exceedsApiLimit (checkArchiveSize b e))
       \<and> (withinLimit (checkArchiveSize b e) \<longrightarrow> withinLimit (checkArchiveSize a e))
       \<and> actualUploadSize (checkArchiveSize a e) \<le> actualUploadSize (checkArchiveSize b e)"
proof -
  have m: "actualUploadSize (checkArchiveSize a e) \<le> actualUploadSize (checkArchiveSize b e)"
    using assms by (rule actualUploadSize_mono)
  have f: "\<And>n. isLarge (checkArchiveSize n e) = (GIST_SIZE_WARNING < actualUploadSize (checkArchiveSize n e))"
    "\<And>n. exceedsWebLimit (checkArchiveSize n e) = (GIST_SIZE_LIMIT_WEB < actualUploadSize (checkArchiveSize n e))"
    "\<And>n. exceedsApiLimit (checkArchiveSize n e) = (GIST_SIZE_LIMIT_API < actualUploadSize (checkArchiveSize n e))"
    "\<And>n. withinLimit (checkArchiveSize n e) = (actualUploadSize (checkArchiveSize n e) \<le> GIST_SIZE_LIMIT_API)"
    by (simp_all add: checkArchiveSize_def Let_def)
  from m show ?thesis unfolding f by linarith
qed

lemma bitLength_31MiB: "bitLength (32505856 * mant133) = Suc 77"
  by (rule bitLength_eqI) (simp_all add: mant133_def)

lemma ceilTimes133_31MiB: "ceilTimes133 32505856 = 43232789"
proof -
  have "round53 (32505856 * mant133) = roundAt 25 (32505856 * mant133)"
    by (simp add: round53_def bitLength_31MiB)
  also have "\<dots> = 194703170088715490951168"
    by (simp add: roundAt_def Let_def mant133_def)
  finally show ?thesis by (simp add: ceilTimes133_def)
qed



lemma exceeds_31MiB: "exceedsApiLimit (checkArchiveSize (31 * 1024 * 1024) False)"
  by (simp add: checkArchiveSize_def Let_def ceilTimes133_31MiB GIST_SIZE_LIMIT_API_def)

theorem checkArchiveSize_monotone_witness:
  "(31 * 1024 * 1024 :: nat) \<le> 32 * 1024 * 1024
   \<and> exceedsApiLimit (checkArchiveSize (31 * 1024 * 1024) False)
   \<and> exceedsApiLimit (checkArchiveSize (32 * 1024 * 1024) False)
   \<and> \<not> withinLimit (checkArchiveSize (32 * 1024 * 1024) False)"
proof -
  have le: "(31 * 1024 * 1024 :: nat) \<le> 32 * 1024 * 1024" by simp
  have w: "withinLimit (checkArchiveSize (32 * 1024 * 1024) False)
      = (\<not> exceedsApiLimit (checkArchiveSize (32 * 1024 * 1024) False))"
    by (simp add: checkArchiveSize_def Let_def not_less)
  from checkArchiveSize_monotone [OF le, of False] exceeds_31MiB le w show ?thesis by blast
qed

section \<open>Properties of watch mode\<close>

lemma inv_init: "watchInv initialWatch"
  by (simp add: watchInv_def initialWatch_def)

lemma running_setTimeout [simp]: "running (setTimeout k s) = running s"
  "saveInProgress (setTimeout k s) = saveInProgress s"
  by (simp_all add: setTimeout_def)

lemma running_clearTimeout [simp]: "running (clearTimeout t s) = running s"
  "saveInProgress (clearTimeout t s) = saveInProgress s"
  by (simp_all add: clearTimeout_def)

lemma running_handleFileChange [simp]: "running (handleFileChange s) = running s"
  "saveInProgress (handleFileChange s) = saveInProgress s"
  by (simp_all add: handleFileChange_def Let_def split: option.splits)

lemma inv_debounce: "watchInv s \<Longrightarrow> watchInv (debounceFired now s)"
  by (auto simp: watchInv_def debounceFired_def startSave_def Let_def)

lemma inv_throttle: "watchInv s \<Longrightarrow> watchInv (throttleFired now s)"
  by (auto simp: watchInv_def throttleFired_def startSave_def)

lemma inv_clear: "watchInv s \<Longrightarrow> watchInv (clearTimeout t s)"
  by (simp add: watchInv_def)

lemma inv_timer: "watchInv s \<Longrightarrow> watchInv (timerFires t now s)"
  by (simp add: timerFires_def inv_debounce inv_throttle inv_clear
      split: option.splits timer_kind.splits)

lemma inv_change: "watchInv s \<Longrightarrow> watchInv (handleFileChange s)"
  by (simp add: watchInv_def)

lemma finish_single:
  assumes "length (running s) \<le> 1" and "k < length (running s)"
  shows "running (finishHandler k s) = []" and "\<not> saveInProgress (finishHandler k s)"
proof -
  from assms obtain h where "running s = [h]" "k = 0"
    by (cases "running s") auto
  then show "running (finishHandler k s) = []" by (simp add: finishHandler_def)
  show "\<not> saveInProgress (finishHandler k s)" by (simp add: finishHandler_def)
qed

lemma inv_finish:
  "length (running s) \<le> 1 \<Longrightarrow> k < length (running s) \<Longrightarrow> watchInv (finishHandler k s)"
  by (simp add: watchInv_def finish_single)

lemma inv_saveReturns:
  assumes "watchInv s"
  shows "watchInv (saveReturns k outcome now s)"
proof (cases "k < length (running s)")
  case False
  with assms show ?thesis by (simp add: saveReturns_def)
next
  case True
  obtain kind st t where h: "running s ! k = (kind, st, t)" by (cases "running s ! k") auto
  from assms have len: "length (running s) \<le> 1" by (simp add: watchInv_def)
  show ?thesis
  proof (cases st)
    case AwaitHash
    with True h assms show ?thesis by (simp add: saveReturns_def)
  next
    case AwaitSave
    show ?thesis
    proof (cases outcome)
      case SaveOk
      with True h AwaitSave assms show ?thesis
        by (simp add: saveReturns_def watchInv_def)
    next
      case (SaveFails msg)
      show ?thesis
      proof (cases "includesStr msg ''Profile too large''")
        case tl: True
        with True h AwaitSave SaveFails assms show ?thesis
          by (simp add: saveReturns_def watchInv_def)
      next
        case ntl: False
        have "watchInv (finishHandler k s)" "watchInv (finishHandler k (s\<lparr>pendingSave := False\<rparr>))"
          using len True by (simp_all add: inv_finish)
        with True h AwaitSave SaveFails ntl show ?thesis
          by (cases kind) (simp_all add: saveReturns_def)
      qed
    qed
  qed
qed

lemma inv_hashReturns:
  assumes "watchInv s"
  shows "watchInv (hashReturns k s)"
proof (cases "k < length (running s)")
  case False
  with assms show ?thesis by (simp add: hashReturns_def)
next
  case True
  obtain kind st t where h: "running s ! k = (kind, st, t)" by (cases "running s ! k") auto
  from assms have len: "length (running s) \<le> 1" by (simp add: watchInv_def)
  have "watchInv (finishHandler k (s\<lparr>saveCount := saveCount s + 1, pendingSave := False\<rparr>))"
    using len True by (simp add: inv_finish)
  with True h assms show ?thesis
    by (cases st) (simp_all add: hashReturns_def)
qed

lemma inv_step: "watchInv s \<Longrightarrow> watchInv (step e s)"
proof (cases "exited s \<noteq> None")
  case True
  assume "watchInv s"
  with True show ?thesis by (simp add: step_def)
next
  case False
  assume i: "watchInv s"
  show ?thesis
  proof (cases e)
    case Sigint
    with i False show ?thesis by (simp add: step_def watchInv_def)
  next
    case (KeychainPoll d)
    with i False show ?thesis by (simp add: step_def inv_change)
  qed (use i False in \<open>simp_all add: step_def inv_timer inv_change inv_saveReturns inv_hashReturns\<close>)
qed

lemma inv_foldl: "watchInv s \<Longrightarrow> watchInv (foldl (\<lambda>s e. step e s) s evs)"
  by (induction evs arbitrary: s) (simp_all add: inv_step)

lemma inv_run: "watchInv (runWatch evs)"
  unfolding runWatch_def by (rule inv_foldl [OF inv_init])

lemma savesInFlight_le: "savesInFlight s \<le> length (running s)"
  by (simp add: savesInFlight_def)

lemma timer_no_second_save:
  assumes "saveInProgress s"
  shows "running (timerFires t now s) = running s"
  using assms
  by (simp add: timerFires_def debounceFired_def throttleFired_def Let_def
      split: option.splits timer_kind.splits)

lemma step_timer_no_second_save:
  assumes "saveInProgress s"
  shows "running (step (TimerFires t now) s) = running s"
  using assms by (simp add: step_def timer_no_second_save)


lemma filter_absent:
  "map_of xs t = None \<Longrightarrow> filter (\<lambda>(i, k). i \<noteq> t) xs = xs"
  by (induction xs) (auto split: if_splits)

lemma timer_dropped:
  assumes "saveInProgress s" and "exited s = None"
    and "map_of (timers s) t = Some Throttle \<or> minSaveInterval \<le> now - lastSaveTime s"
  shows "timers (step (TimerFires t now) s) = filter (\<lambda>(i, k). i \<noteq> t) (timers s)"
    and "map_of (timers s) t = Some Throttle \<Longrightarrow> \<not> pendingSave (step (TimerFires t now) s)"
  using assms
  by (auto simp: step_def timerFires_def debounceFired_def throttleFired_def Let_def
      clearTimeout_def filter_absent split: option.splits timer_kind.splits)

lemma reset_after_success:
  assumes "watchInv s" and "exited s = None" and "k < length (running s)"
  shows "\<not> saveInProgress (step (HashReturns k) (step (SaveReturns k SaveOk now) s))"
proof -
  from assms obtain h where r: "running s = [h]" "k = 0"
    by (cases "running s") (auto simp: watchInv_def)
  obtain kind st t where h: "h = (kind, st, t)" by (cases h) auto
  show ?thesis
    using assms(2) r h
    by (cases st) (simp_all add: step_def saveReturns_def hashReturns_def finishHandler_def)
qed

lemma reset_after_failure:
  assumes "watchInv s" and "exited s = None" and "savesInFlight s = 1"
    and "\<not> includesStr msg ''Profile too large''"
  shows "\<not> saveInProgress (step (SaveReturns 0 (SaveFails msg) now) s)"
proof -
  from assms(1,3) obtain h where r: "running s = [h]"
    by (cases "running s") (auto simp: watchInv_def savesInFlight_def)
  obtain kind st t where h: "h = (kind, st, t)" by (cases h) auto
  with assms(3) r have st: "st = AwaitSave" by (simp add: savesInFlight_def split: if_splits)
  show ?thesis
    using assms(2,4) r h st
    by (cases kind) (simp_all add: step_def saveReturns_def finishHandler_def)
qed

lemma timer_defers:
  assumes "exited s = None" and "defersSave s t now"
  shows "pendingSave (step (TimerFires t now) s)"
    and "timers (step (TimerFires t now) s) =
           filter (\<lambda>(i, k). i \<noteq> t) (timers s) @ [(nextTimer s, Throttle)]"
  using assms
  by (simp_all add: step_def timerFires_def debounceFired_def Let_def defersSave_def
      clearTimeout_def setTimeout_def)

lemma timer_drops:
  assumes "saveInProgress s" and "exited s = None" and "\<not> defersSave s t now"
  shows "requestDropped s t now"
proof (cases "map_of (timers s) t")
  case None
  with assms show ?thesis
    by (simp add: requestDropped_def step_def timerFires_def filter_absent)
next
  case (Some kind)
  show ?thesis
  proof (cases kind)
    case Throttle
    with Some assms show ?thesis
      by (simp add: requestDropped_def step_def timerFires_def throttleFired_def clearTimeout_def)
  next
    case Debounce
    with Some assms show ?thesis
      by (auto simp: requestDropped_def step_def timerFires_def debounceFired_def Let_def
          clearTimeout_def defersSave_def)
  qed
qed

lemma dropped_iff:
  assumes "saveInProgress s" and "exited s = None"
  shows "requestDropped s t now = (\<not> defersSave s t now)"
proof (cases "defersSave s t now")
  case True
  from timer_defers(2) [OF assms(2) True] have "\<not> requestDropped s t now"
    by (simp add: requestDropped_def)
  with True show ?thesis by simp
next
  case False
  with timer_drops [OF assms False] show ?thesis by simp
qed

lemma run_hashAwait:
  "runWatch hashAwaitEvents =
     \<lparr>lastSaveTime = 40000, pendingSave = False, saveInProgress = True, changeDetected = True,
      saveCount = 0, pendingSaveTimeout = Some 1, timers = [(1, Debounce)], nextTimer = 2,
      running = [(Debounce, AwaitHash, 40000)], exited = None\<rparr>"
  by (simp add: hashAwaitEvents_def runWatch_def step_def initialWatch_def handleFileChange_def
      setTimeout_def clearTimeout_def timerFires_def debounceFired_def startSave_def
      saveReturns_def minSaveInterval_def Let_def)

text \<open>
  C3, as stated, fails in its ``dropped, not queued''. After a save has succeeded the handler
  sets \<^verbatim>\<open>lastSaveTime\<close> and waits for the hash with \<^verbatim>\<open>saveInProgress\<close> still true. A
  debounce timer that completes then is within the minimum interval, so the callback records
  a pending save and arms the throttle timer: the request is queued.
\<close>

theorem watch_request_queued_counterexample:
  "saveInProgress (runWatch hashAwaitEvents)
   \<and> map_of (timers (runWatch hashAwaitEvents)) 1 = Some Debounce
   \<and> \<not> requestDropped (runWatch hashAwaitEvents) 1 42000
   \<and> pendingSave (step (TimerFires 1 42000) (runWatch hashAwaitEvents))
   \<and> timers (step (TimerFires 1 42000) (runWatch hashAwaitEvents)) = [(2, Throttle)]"
  by (simp add: run_hashAwait requestDropped_def step_def timerFires_def debounceFired_def
      clearTimeout_def setTimeout_def minSaveInterval_def Let_def)

text \<open>
  C3, amended. In watch mode at most one save is in flight at any time. After every sequence
  of events: at most one handler is waiting for a save; a timer (debounce or throttle) that
  completes while \<^verbatim>\<open>saveInProgress\<close> is true starts no second save; the request is
  dropped, not queued, except when a debounce timer completes with a change detected, less
  than the minimum interval after \<^verbatim>\<open>lastSaveTime\<close> and no save pending, in which case
  the callback records a pending save and arms the throttle timer, whether or not a save is
  in progress; and \<^verbatim>\<open>saveInProgress\<close> is false again once the save has finished, after
  a success (save, then hash) as after a failure that does not stop the process.
\<close>

theorem watch_single_save:
  "savesInFlight (runWatch evs) \<le> 1
   \<and> (saveInProgress (runWatch evs) \<longrightarrow>
        running (step (TimerFires t now) (runWatch evs)) = running (runWatch evs)
        \<and> savesInFlight (step (TimerFires t now) (runWatch evs)) = savesInFlight (runWatch evs))
   \<and> (saveInProgress (runWatch evs) \<and> exited (runWatch evs) = None \<longrightarrow>
        requestDropped (runWatch evs) t now = (\<not> defersSave (runWatch evs) t now))
   \<and> (exited (runWatch evs) = None \<and> defersSave (runWatch evs) t now \<longrightarrow>
        pendingSave (step (TimerFires t now) (runWatch evs))
        \<and> timers (step (TimerFires t now) (runWatch evs)) =
            filter (\<lambda>(i, k). i \<noteq> t) (timers (runWatch evs))
              @ [(nextTimer (runWatch evs), Throttle)])
   \<and> (saveInProgress (runWatch evs) \<and> exited (runWatch evs) = None
        \<and> (map_of (timers (runWatch evs)) t = Some Throttle
            \<or> minSaveInterval \<le> now - lastSaveTime (runWatch evs)) \<longrightarrow>
        timers (step (TimerFires t now) (runWatch evs)) =
          filter (\<lambda>(i, k). i \<noteq> t) (timers (runWatch evs)))
   \<and> (exited (runWatch evs) = None \<and> k < length (running (runWatch evs)) \<longrightarrow>
        \<not> saveInProgress (step (HashReturns k) (step (SaveReturns k SaveOk now) (runWatch evs))))
   \<and> (exited (runWatch evs) = None \<and> savesInFlight (runWatch evs) = 1
        \<and> \<not> includesStr msg ''Profile too large'' \<longrightarrow>
        \<not> saveInProgress (step (SaveReturns 0 (SaveFails msg) now) (runWatch evs)))"
proof (intro conjI impI)
  have "savesInFlight (runWatch evs) \<le> length (running (runWatch evs))"
    by (rule savesInFlight_le)
  also have "\<dots> \<le> 1" using inv_run [of evs] by (simp add: watchInv_def)
  finally show "savesInFlight (runWatch evs) \<le> 1" .
next
  assume "saveInProgress (runWatch evs)"
  then show "running (step (TimerFires t now) (runWatch evs)) = running (runWatch evs)"
    by (rule step_timer_no_second_save)
  then show "savesInFlight (step (TimerFires t now) (runWatch evs)) = savesInFlight (runWatch evs)"
    by (simp add: savesInFlight_def)
next
  assume "saveInProgress (runWatch evs) \<and> exited (runWatch evs) = None"
  then show "requestDropped (runWatch evs) t now = (\<not> defersSave (runWatch evs) t now)"
    by (intro dropped_iff) simp_all
next
  assume a: "exited (runWatch evs) = None \<and> defersSave (runWatch evs) t now"
  then show "pendingSave (step (TimerFires t now) (runWatch evs))"
    by (intro timer_defers(1)) simp_all
  from a show "timers (step (TimerFires t now) (runWatch evs)) =
            filter (\<lambda>(i, k). i \<noteq> t) (timers (runWatch evs))
              @ [(nextTimer (runWatch evs), Throttle)]"
    by (intro timer_defers(2)) simp_all
next
  assume "saveInProgress (runWatch evs) \<and> exited (runWatch evs) = None
        \<and> (map_of (timers (runWatch evs)) t = Some Throttle
            \<or> minSaveInterval \<le> now - lastSaveTime (runWatch evs))"
  then show "timers (step (TimerFires t now) (runWatch evs)) =
          filter (\<lambda>(i, k). i \<noteq> t) (timers (runWatch evs))"
    by (intro timer_dropped(1)) simp_all
next
  assume "exited (runWatch evs) = None \<and> k < length (running (runWatch evs))"
  then show "\<not> saveInProgress (step (HashReturns k) (step (SaveReturns k SaveOk now) (runWatch evs)))"
    by (intro reset_after_success inv_run) simp_all
next
  assume "exited (runWatch evs) = None \<and> savesInFlight (runWatch evs) = 1
        \<and> \<not> includesStr msg ''Profile too large''"
  then show "\<not> saveInProgress (step (SaveReturns 0 (SaveFails msg) now) (runWatch evs))"
    by (intro reset_after_failure inv_run) simp_all
qed

lemma run_example:
  "runWatch [FileChange, TimerFires 0 40000, FileChange] =
     \<lparr>lastSaveTime = 0, pendingSave = False, saveInProgress = True, changeDetected = True,
      saveCount = 0, pendingSaveTimeout = Some 1, timers = [(1, Debounce)], nextTimer = 2,
      running = [(Debounce, AwaitSave, 40000)], exited = None\<rparr>"
  by (simp add: runWatch_def step_def initialWatch_def handleFileChange_def setTimeout_def
      clearTimeout_def timerFires_def debounceFired_def startSave_def minSaveInterval_def Let_def)

theorem watch_single_save_witness:
  "saveInProgress (runWatch [FileChange, TimerFires 0 40000, FileChange])
   \<and> savesInFlight (runWatch [FileChange, TimerFires 0 40000, FileChange]) = 1
   \<and> running (step (TimerFires 1 80000) (runWatch [FileChange, TimerFires 0 40000, FileChange]))
       = [(Debounce, AwaitSave, 40000)]
   \<and> requestDropped (runWatch [FileChange, TimerFires 0 40000, FileChange]) 1 80000
   \<and> timers (step (TimerFires 1 80000) (runWatch [FileChange, TimerFires 0 40000, FileChange])) = []
   \<and> \<not> saveInProgress (step (HashReturns 0) (step (SaveReturns 0 SaveOk 80000)
         (runWatch [FileChange, TimerFires 0 40000, FileChange])))
   \<and> \<not> saveInProgress (step (SaveReturns 0 (SaveFails ''Failed to upload: boom'') 80000)
         (runWatch [FileChange, TimerFires 0 40000, FileChange]))
   \<and> defersSave (runWatch hashAwaitEvents) 1 42000
   \<and> running (step (TimerFires 1 42000) (runWatch hashAwaitEvents)) = [(Debounce, AwaitHash, 40000)]
   \<and> savesInFlight (step (TimerFires 1 42000) (runWatch hashAwaitEvents)) = 0"
  using watch_single_save [of "[FileChange, TimerFires 0 40000, FileChange]" 1 80000 0
      "''Failed to upload: boom''"]
    watch_single_save [of hashAwaitEvents 1 42000 0 "''Failed to upload: boom''"]
  by (simp add: run_example run_hashAwait savesInFlight_def minSaveInterval_def startsWith_def
      defersSave_def)

section \<open>Properties of the store operations\<close>

lemma seq_Returned: "seq (tr, Returned u) n = (tr @ fst n, snd n)"
  by (simp add: seq_def)

lemma seq_stops: "snd m \<noteq> Returned () \<Longrightarrow> seq m n = m"
  by (cases m; cases "snd m") (auto simp: seq_def)

lemma noNet_seq:
  assumes "noStoreNetwork m" and "snd m = Returned () \<Longrightarrow> noStoreNetwork n"
  shows "noStoreNetwork (seq m n)"
proof (cases "snd m = Returned ()")
  case True
  then obtain tr where "m = (tr, Returned ())" by (cases m) auto
  with assms True show ?thesis by (auto simp: seq_Returned noStoreNetwork_def)
next
  case False
  with assms(1) show ?thesis by (simp add: seq_stops)
qed

lemma noNet_tryCatch:
  assumes "noStoreNetwork m" and "\<And>msg. noStoreNetwork (h msg)"
  shows "noStoreNetwork (tryCatch m h)"
  using assms
  by (cases m; cases "snd m") (auto simp: tryCatch_def noStoreNetwork_def)

lemma noNet_tryFinally:
  assumes "noStoreNetwork m" and "noStoreNetwork fin"
  shows "noStoreNetwork (tryFinally m fin)"
  using assms
  by (cases m; cases "snd m"; cases fin; cases "snd fin")
     (auto simp: tryFinally_def noStoreNetwork_def)

lemma noNet_basic [simp]:
  "noStoreNetwork skip" "noStoreNetwork (throw msg)" "noStoreNetwork (processExit n)"
  "noStoreNetwork (emit MkdTemp)" "noStoreNetwork (emit RmTemp)"
  "noStoreNetwork (emit AuthStatus)" "noStoreNetwork (emit (LogError l))"
  "noStoreNetwork (io env p)" "noStoreNetwork (validateProfileName name)"
  by (simp_all add: noStoreNetwork_def skip_def throw_def processExit_def emit_def io_def
      validateProfileName_def split: option.splits)

lemma noNet_writeArchive [simp]: "noStoreNetwork (writeArchive env)"
  unfolding writeArchive_def
  by (cases "ioError env AtWriteStream") (auto intro!: noNet_seq)

lemma noNet_rmTemp [simp]: "noStoreNetwork (rmTemp env)"
  unfolding rmTemp_def by (intro noNet_seq) simp_all

lemma snd_throw [simp]: "snd (throw msg) = Thrown msg" "fst (throw msg) = []"
  by (simp_all add: throw_def)

lemma snd_seq_throw: "snd m = Returned () \<Longrightarrow> snd (seq m n) = snd n"
  by (cases m) (simp add: seq_def)

lemma snd_emit [simp]: "snd (emit e) = Returned ()" "fst (emit e) = [e]"
  by (simp_all add: emit_def)

lemma within_not_exceeds:
  "withinLimit (checkArchiveSize n e) = (\<not> exceedsApiLimit (checkArchiveSize n e))"
  by (simp add: checkArchiveSize_def Let_def not_less)

lemma noNet_seq2:
  "noStoreNetwork m \<Longrightarrow> noStoreNetwork n \<Longrightarrow> noStoreNetwork (seq m n)"
  by (rule noNet_seq)

lemma noNet_noFilesExit [simp]: "noStoreNetwork (noFilesExit opts env)"
  unfolding noFilesExit_def by (auto intro!: noNet_seq2)

lemma saveSizeCheck_exceeds:
  assumes "exceedsApiLimit (checkArchiveSize (archiveSize env) False)"
  shows "saveSizeCheck opts env =
     ([LogError (tooLargeLine env),
       LogError (''   GitHub Gist limit: '' @ formatBytes env GIST_SIZE_LIMIT_API),
       LogError (if skipProjects opts
               then ''   Consider cleaning up ~/.claude/ directory manually''
               else ''   Consider using --skip-projects option to exclude the projects folder'')],
      Thrown ''Profile too large'')"
  using assms
  by (simp add: saveSizeCheck_def within_not_exceeds seq_def emit_def throw_def)

lemma silentSizeCheck_exceeds:
  assumes "exceedsApiLimit (checkArchiveSize (archiveSize env) False)"
  shows "silentSizeCheck opts env = ([], Thrown (silentTooLarge opts env))"
  using assms by (simp add: silentSizeCheck_def within_not_exceeds throw_def)

lemma saveSizeCheck_stops:
  assumes "exceedsApiLimit (checkArchiveSize (archiveSize env) False)"
  shows "seq (saveSizeCheck opts env) rest = saveSizeCheck opts env"
  by (rule seq_stops) (simp add: saveSizeCheck_exceeds [OF assms])

lemma silentSizeCheck_stops:
  assumes "exceedsApiLimit (checkArchiveSize (archiveSize env) False)"
  shows "seq (silentSizeCheck opts env) rest = silentSizeCheck opts env"
  by (rule seq_stops) (simp add: silentSizeCheck_exceeds [OF assms])

lemma noNet_sizeChecks:
  assumes "exceedsApiLimit (checkArchiveSize (archiveSize env) False)"
  shows "noStoreNetwork (saveSizeCheck opts env)" and "noStoreNetwork (silentSizeCheck opts env)"
  by (simp_all add: saveSizeCheck_exceeds [OF assms] silentSizeCheck_exceeds [OF assms]
      noStoreNetwork_def)

lemma noNet_if:
  "noStoreNetwork a \<Longrightarrow> noStoreNetwork b \<Longrightarrow> noStoreNetwork (if c then a else b)"
  by simp

lemma saveBody_noNet:
  assumes "exceedsApiLimit (checkArchiveSize (archiveSize env) False)"
  shows "noStoreNetwork (saveProfileBody profileName opts env)"
  unfolding saveProfileBody_def saveSizeCheck_stops [OF assms]
  by (intro noNet_seq2 noNet_if noNet_sizeChecks [OF assms]; simp)

lemma saveProfile_noNet:
  assumes "exceedsApiLimit (checkArchiveSize (archiveSize env) False)"
  shows "noStoreNetwork (saveProfile profileName opts env)"
  unfolding saveProfile_def
  by (intro noNet_tryCatch saveBody_noNet [OF assms] noNet_seq2 noNet_if; simp)

lemma saveProfileSilent_noNet:
  assumes "exceedsApiLimit (checkArchiveSize (archiveSize env) False)"
  shows "noStoreNetwork (saveProfileSilent profileName opts env)"
  unfolding saveProfileSilent_def silentSizeCheck_stops [OF assms]
  by (intro noNet_seq2 noNet_tryFinally noNet_tryCatch noNet_if noNet_sizeChecks [OF assms]; simp)


lemma io_ok [simp]: "ioError env p = None \<Longrightarrow> io env p = skip"
  by (simp add: io_def)

lemma seq_skip [simp]: "seq skip n = n"
  by (simp add: seq_def skip_def)

lemma writeArchive_ok [simp]:
  "ioError env AtWriteStream = None \<Longrightarrow> ioError env AtFinalize = None \<Longrightarrow> writeArchive env = skip"
  by (simp add: writeArchive_def)

lemma seq_emit: "seq (emit e) n = (e # fst n, snd n)"
  by (simp add: seq_def emit_def)

lemma saveProfile_tooLarge:
  assumes ex: "exceedsApiLimit (checkArchiveSize (archiveSize env) False)"
    and name: "profileName \<noteq> []" "list_all isNameChar profileName"
    and valid: "localValid env"
    and noerr: "\<forall>p. ioError env p = None"
    and files: "list_ex (itemHasFiles env) (getBackupPaths opts) \<or> (isDarwin env \<and> hasKeychainCreds env)"
  shows "saveProfile profileName opts env =
     ([MkdTemp,
       LogError (tooLargeLine env),
       LogError (''   GitHub Gist limit: '' @ formatBytes env GIST_SIZE_LIMIT_API),
       LogError (if skipProjects opts
               then ''   Consider cleaning up ~/.claude/ directory manually''
               else ''   Consider using --skip-projects option to exclude the projects folder''),
       LogError ''Error saving profile:''],
      Exited 1)"
proof -
  have body: "saveProfileBody profileName opts env =
     ([MkdTemp,
       LogError (tooLargeLine env),
       LogError (''   GitHub Gist limit: '' @ formatBytes env GIST_SIZE_LIMIT_API),
       LogError (if skipProjects opts
               then ''   Consider cleaning up ~/.claude/ directory manually''
               else ''   Consider using --skip-projects option to exclude the projects folder'')],
      Thrown ''Profile too large'')"
    unfolding saveProfileBody_def saveSizeCheck_stops [OF ex]
    using name valid noerr files
    by (simp add: validateProfileName_def noFilesExit_def seq_emit saveSizeCheck_exceeds [OF ex])
  show ?thesis
    unfolding saveProfile_def body
    by (simp add: tryCatch_def startsWith_def seq_emit processExit_def)
qed

lemma saveProfileSilent_tooLarge:
  assumes ex: "exceedsApiLimit (checkArchiveSize (archiveSize env) False)"
    and noerr: "\<forall>p. ioError env p = None"
  shows "saveProfileSilent profileName opts env = ([MkdTemp, RmTemp], Thrown (silentTooLarge opts env))"
  unfolding saveProfileSilent_def silentSizeCheck_stops [OF ex]
  using noerr
  by (simp add: seq_def silentSizeCheck_exceeds [OF ex] tryFinally_def tryCatch_def rmTemp_def
      emit_def skip_def)

lemma silentTooLarge_includes: "includesStr (silentTooLarge opts env) ''Profile too large''"
  by (simp add: silentTooLarge_def startsWith_def)

lemma silentTooLarge_distinguishes:
  "silentTooLarge (opts\<lparr>skipProjects := True\<rparr>) env \<noteq> silentTooLarge (opts\<lparr>skipProjects := False\<rparr>) env"
  by (simp add: silentTooLarge_def)

lemma actual_31MiB: "actualUploadSize (checkArchiveSize 32505856 False) = 43232789"
  by (simp add: checkArchiveSize_def Let_def ceilTimes133_31MiB)

lemma bigArchiveEnv_exceeds: "exceedsApiLimit (checkArchiveSize (archiveSize bigArchiveEnv) False)"
  using exceeds_31MiB by (simp add: bigArchiveEnv_def)

lemma bigArchiveEnv_lines:
  "tooLargeLine bigArchiveEnv =
     ''Profile is too large (31 MB compressed, 41.23 MB when base64 encoded) for GitHub Gist''"
  "formatBytes bigArchiveEnv GIST_SIZE_LIMIT_API = ''40 MB''"
  "silentTooLarge \<lparr>skipProjects = False\<rparr> bigArchiveEnv =
     ''Profile too large (31 MB compressed, 41.23 MB when base64 encoded) - GitHub Gist limit is 40 MB''
     @ [CHR 0x0A] @ ''Consider using --skip-projects option to exclude the projects folder.''"
  by (simp_all add: tooLargeLine_def silentTooLarge_def bigArchiveEnv_def actual_31MiB
      GIST_SIZE_LIMIT_API_def)

lemma bigArchiveEnv_ok:
  "localValid bigArchiveEnv" "\<forall>p. ioError bigArchiveEnv p = None"
  "list_ex (itemHasFiles bigArchiveEnv) (getBackupPaths \<lparr>skipProjects = False\<rparr>)"
  "list_all isNameChar ''work''"
  by (simp_all add: bigArchiveEnv_def getBackupPaths_def BACKUP_PATHS_def itemHasFiles_def
      isNameChar_def)

text \<open>
  C2. In a store operation the size classification comes before any network call of the
  operation. Whenever the classification of the archive reports \<^verbatim>\<open>exceedsApiLimit\<close>,
  neither \<^verbatim>\<open>saveProfile\<close> nor \<^verbatim>\<open>saveProfileSilent\<close> looks up the gist or uploads,
  whatever else happens. When the run gets as far as the size check (valid name, local
  files verified, something to back up, no file-system error), \<^verbatim>\<open>saveProfile\<close> logs
  the size error, with a last line that depends on \<^verbatim>\<open>skipProjects\<close>, throws
  \<^verbatim>\<open>Profile too large\<close> and exits with code 1; \<^verbatim>\<open>saveProfileSilent\<close> throws an
  error whose message starts with \<^verbatim>\<open>Profile too large\<close> and differs between the two
  settings of \<^verbatim>\<open>skipProjects\<close>.
\<close>

theorem store_size_check_before_upload:
  assumes "exceedsApiLimit (checkArchiveSize (archiveSize env) False)"
  shows "Upload \<notin> set (fst (saveProfile profileName opts env))
       \<and> FindOrCreateGist \<notin> set (fst (saveProfile profileName opts env))
       \<and> Upload \<notin> set (fst (saveProfileSilent profileName opts env))
       \<and> FindOrCreateGist \<notin> set (fst (saveProfileSilent profileName opts env))
       \<and> (profileName \<noteq> [] \<and> list_all isNameChar profileName \<and> localValid env
            \<and> (\<forall>p. ioError env p = None)
            \<and> (list_ex (itemHasFiles env) (getBackupPaths opts)
                 \<or> (isDarwin env \<and> hasKeychainCreds env)) \<longrightarrow>
          saveProfile profileName opts env =
            ([MkdTemp,
              LogError (tooLargeLine env),
              LogError (''   GitHub Gist limit: '' @ formatBytes env GIST_SIZE_LIMIT_API),
              LogError (if skipProjects opts
                then ''   Consider cleaning up ~/.claude/ directory manually''
                else ''   Consider using --skip-projects option to exclude the projects folder''),
              LogError ''Error saving profile:''],
             Exited 1))
       \<and> ((\<forall>p. ioError env p = None) \<longrightarrow>
          saveProfileSilent profileName opts env =
            ([MkdTemp, RmTemp], Thrown (silentTooLarge opts env)))
       \<and> includesStr (silentTooLarge opts env) ''Profile too large''
       \<and> silentTooLarge (opts\<lparr>skipProjects := True\<rparr>) env
            \<noteq> silentTooLarge (opts\<lparr>skipProjects := False\<rparr>) env"
proof (intro conjI impI)
  from saveProfile_noNet [OF assms, of profileName opts]
  show "Upload \<notin> set (fst (saveProfile profileName opts env))"
    and "FindOrCreateGist \<notin> set (fst (saveProfile profileName opts env))"
    by (simp_all add: noStoreNetwork_def)
  from saveProfileSilent_noNet [OF assms, of profileName opts]
  show "Upload \<notin> set (fst (saveProfileSilent profileName opts env))"
    and "FindOrCreateGist \<notin> set (fst (saveProfileSilent profileName opts env))"
    by (simp_all add: noStoreNetwork_def)
  show "includesStr (silentTooLarge opts env) ''Profile too large''"
    by (rule silentTooLarge_includes)
  show "silentTooLarge (opts\<lparr>skipProjects := True\<rparr>) env
            \<noteq> silentTooLarge (opts\<lparr>skipProjects := False\<rparr>) env"
    by (rule silentTooLarge_distinguishes)
next
  assume "profileName \<noteq> [] \<and> list_all isNameChar profileName \<and> localValid env
            \<and> (\<forall>p. ioError env p = None)
            \<and> (list_ex (itemHasFiles env) (getBackupPaths opts)
                 \<or> (isDarwin env \<and> hasKeychainCreds env))"
  then show "saveProfile profileName opts env =
            ([MkdTemp,
              LogError (tooLargeLine env),
              LogError (''   GitHub Gist limit: '' @ formatBytes env GIST_SIZE_LIMIT_API),
              LogError (if skipProjects opts
                then ''   Consider cleaning up ~/.claude/ directory manually''
                else ''   Consider using --skip-projects option to exclude the projects folder''),
              LogError ''Error saving profile:''],
             Exited 1)"
    by (intro saveProfile_tooLarge [OF assms]) simp_all
next
  assume "\<forall>p. ioError env p = None"
  then show "saveProfileSilent profileName opts env =
            ([MkdTemp, RmTemp], Thrown (silentTooLarge opts env))"
    by (rule saveProfileSilent_tooLarge [OF assms])
qed

theorem store_size_check_before_upload_witness:
  "exceedsApiLimit (checkArchiveSize (archiveSize bigArchiveEnv) False)
   \<and> saveProfile ''work'' \<lparr>skipProjects = False\<rparr> bigArchiveEnv =
       ([MkdTemp,
         LogError ''Profile is too large (31 MB compressed, 41.23 MB when base64 encoded) for GitHub Gist'',
         LogError ''   GitHub Gist limit: 40 MB'',
         LogError ''   Consider using --skip-projects option to exclude the projects folder'',
         LogError ''Error saving profile:''],
        Exited 1)
   \<and> saveProfileSilent ''work'' \<lparr>skipProjects = False\<rparr> bigArchiveEnv =
       ([MkdTemp, RmTemp],
        Thrown (''Profile too large (31 MB compressed, 41.23 MB when base64 encoded) - GitHub Gist limit is 40 MB''
                @ [CHR 0x0A] @ ''Consider using --skip-projects option to exclude the projects folder.''))"
  using store_size_check_before_upload [OF bigArchiveEnv_exceeds, of "''work''" "\<lparr>skipProjects = False\<rparr>"]
    bigArchiveEnv_exceeds bigArchiveEnv_ok
  by (simp add: bigArchiveEnv_lines)

section \<open>Properties of the verification of a downloaded profile\<close>

lemma valid_pushIssue [simp]: "valid (pushIssue m v) = valid v"
  by (simp add: pushIssue_def)

lemma valid_invalidate [simp]: "valid (invalidate v) = False"
  by (simp add: invalidate_def)

lemma issues_invalidate [simp]: "issues (invalidate v) = issues v"
  by (simp add: invalidate_def)

lemma issues_pushIssue [simp]: "issues (pushIssue m v) = issues v @ [m]"
  by (simp add: pushIssue_def)

lemma valid_checkOauth:
  "valid (checkOauth label oauth v) =
     (valid v \<and> truthy (propOf oauth ''accessToken'') \<and> truthy (propOf oauth ''refreshToken''))"
  by (simp add: checkOauth_def Let_def)

lemma truthy_not_null: "truthy (propOf r k) \<Longrightarrow> \<exists>x. getProp r ''claudeAiOauth'' = Inr x"
  by (cases r) (simp_all add: propOf_def)

lemma getProp_propOf: "getProp r k = Inr x \<Longrightarrow> x = propOf r k"
  by (simp add: propOf_def)

lemma getProp_Inl: "getProp r k = Inl e \<Longrightarrow> \<not> truthy (propOf r k')"
  by (cases r) (simp_all add: propOf_def)

lemma valid_checkLinux:
  "valid (checkLinuxCreds f v) = (valid v \<and> (f = Missing \<or> acceptedIn False f))"
proof (cases f)
  case (Parsed r)
  show ?thesis
  proof (cases "getProp r ''claudeAiOauth''")
    case (Inl e)
    from getProp_Inl [OF Inl] show ?thesis
      by (simp add: Parsed Inl checkLinuxCreds_def acceptedIn_def wrappedUsable_def flatUsable_def)
  next
    case (Inr x)
    from getProp_propOf [OF Inr] show ?thesis
      by (auto simp: Parsed Inr checkLinuxCreds_def acceptedIn_def wrappedUsable_def flatUsable_def
          valid_checkOauth Let_def)
  qed
qed (simp_all add: checkLinuxCreds_def acceptedIn_def)

lemma valid_checkMac:
  "valid (checkMacCreds f v) = (valid v \<and> (f = Missing \<or> acceptedIn True f))"
proof (cases f)
  case (Parsed r)
  show ?thesis
  proof (cases "getProp r ''claudeAiOauth''")
    case (Inl e)
    from getProp_Inl [OF Inl] show ?thesis
      by (simp add: Parsed Inl checkMacCreds_def acceptedIn_def wrappedUsable_def)
  next
    case (Inr x)
    from getProp_propOf [OF Inr] show ?thesis
      by (auto simp: Parsed Inr checkMacCreds_def acceptedIn_def wrappedUsable_def valid_checkOauth)
  qed
qed (simp_all add: checkMacCreds_def acceptedIn_def)

lemma valid_checkConfig: "valid (checkConfig st v) = (valid v \<and> st = IsFile)"
  by (simp add: checkConfig_def)

lemma valid_verify:
  "valid (verifyDownloadedProfile u) =
     (mkdirError u = None \<and> unzipCode u = 0 \<and> configStat u = IsFile
      \<and> (linuxCreds u \<noteq> Missing \<or> macCreds u \<noteq> Missing)
      \<and> (linuxCreds u = Missing \<or> acceptedIn False (linuxCreds u))
      \<and> (macCreds u = Missing \<or> acceptedIn True (macCreds u)))"
  by (cases "mkdirError u")
     (auto simp: verifyDownloadedProfile_def Let_def valid_checkConfig valid_checkMac valid_checkLinux)


lemma issues_checkOauth: "m \<in> set (issues v) \<Longrightarrow> m \<in> set (issues (checkOauth label oauth v))"
  by (simp add: checkOauth_def Let_def)

lemma issues_checkMac: "m \<in> set (issues v) \<Longrightarrow> m \<in> set (issues (checkMacCreds f v))"
  by (cases f) (simp_all add: checkMacCreds_def issues_checkOauth split: sum.splits)

lemma issues_checkConfig: "m \<in> set (issues v) \<Longrightarrow> m \<in> set (issues (checkConfig st v))"
  by (simp add: checkConfig_def)

lemma issue_linux_broken:
  "(''Linux credentials file is not valid JSON: '' @ msg) \<in> set (issues (checkLinuxCreds (Broken msg) v))"
  by (simp add: checkLinuxCreds_def)

lemma issue_mac_broken:
  "(''macOS credentials file is not valid JSON: '' @ msg) \<in> set (issues (checkMacCreds (Broken msg) v))"
  by (simp add: checkMacCreds_def)

lemma verify_unfold:
  assumes "mkdirError u = None" and "unzipCode u = 0"
    and "linuxCreds u \<noteq> Missing \<or> macCreds u \<noteq> Missing"
  shows "verifyDownloadedProfile u =
     checkConfig (configStat u)
       (checkMacCreds (macCreds u) (checkLinuxCreds (linuxCreds u) \<lparr>valid = True, issues = []\<rparr>))"
  using assms by (auto simp: verifyDownloadedProfile_def Let_def)

lemma accepted_is_usable:
  assumes "acceptedIn native (Parsed r)"
  shows "\<exists>w. convertCredentialsFormat r p = Inr w
       \<and> truthy (propOf (propOf w ''claudeAiOauth'') ''accessToken'')
       \<and> truthy (propOf (propOf w ''claudeAiOauth'') ''refreshToken'')"
proof -
  from assms have "truthy (propOf r ''claudeAiOauth'') \<or> truthy (propOf r ''access_token'')"
    by (auto simp: acceptedIn_def wrappedUsable_def flatUsable_def)
  then obtain x where x: "getProp r ''claudeAiOauth'' = Inr x"
    using truthy_not_null by blast
  show ?thesis
  proof (cases "truthy (propOf r ''claudeAiOauth'')")
    case True
    with assms have "wrappedUsable r" by (auto simp: acceptedIn_def flatUsable_def)
    with True show ?thesis
      by (simp add: convert_unfold [OF x] wrappedUsable_def)
  next
    case False
    with assms have f: "flatUsable r" by (auto simp: acceptedIn_def wrappedUsable_def)
    then have "convertCredentialsFormat r p = Inr (wrapLegacy r)"
      by (simp add: convert_unfold [OF x] flatUsable_def)
    moreover have "truthy (propOf (propOf (wrapLegacy r) ''claudeAiOauth'') ''accessToken'')"
      "truthy (propOf (propOf (wrapLegacy r) ''claudeAiOauth'') ''refreshToken'')"
      using f by (simp_all add: wrapLegacy_def flatUsable_def propOf_def [of "JObj _"])
    ultimately show ?thesis by simp
  qed
qed

lemma essential_checkListed:
  "hasEssentialFiles (checkListed path essential d st creds rep) =
     (hasEssentialFiles rep
      \<and> (essential \<longrightarrow> st \<noteq> NoEnt \<and> st \<noteq> StatError \<and> (\<not> d \<longrightarrow> st = IsFile)))"
  by (cases st)
     (auto simp: checkListed_def Let_def split: option.splits cred_file.splits sum.splits)

lemma verifyProfile_essential:
  "hasEssentialFiles (verifyProfileChecks l) =
     (credentialsStat l = IsFile \<and> configurationStat l = IsFile)"
  by (auto simp: verifyProfileChecks_def essential_checkListed)

lemma verifyProfile_native_only:
  "credentialsStat l = NoEnt \<Longrightarrow> \<not> hasEssentialFiles (verifyProfileChecks l)"
  by (simp add: verifyProfile_essential)

lemma verifyProfile_unparseable:
  assumes "credentialsStat l = IsFile" and "credentialsParse l = Broken msg"
    and "configurationStat l = IsFile"
  shows "hasEssentialFiles (verifyProfileChecks l)"
    and "''Could not parse credentials file'' \<in> set (warnings (verifyProfileChecks l))"
proof -
  show "hasEssentialFiles (verifyProfileChecks l)"
    using assms by (simp add: verifyProfile_essential)
  have w: "\<And>path e d st rep x. x \<in> set (warnings rep) \<Longrightarrow>
      x \<in> set (warnings (checkListed path e d st None rep))"
    by (simp add: checkListed_def Let_def split: stat_result.splits)
  show "''Could not parse credentials file'' \<in> set (warnings (verifyProfileChecks l))"
    unfolding verifyProfileChecks_def
    by (intro w) (simp add: checkListed_def assms Let_def)
qed

lemma accepted_spec:
  assumes "acceptedIn native (Parsed r)"
  shows "specUsable r"
  using accepted_is_usable [OF assms, of "''darwin''"]
  by (auto simp: specUsable_def)

lemma issue_mac_nowrapper:
  assumes "\<not> truthy (propOf (JObj fs) ''claudeAiOauth'')"
  shows "''macOS credentials missing claudeAiOauth wrapper object''
           \<in> set (issues (checkMacCreds (Parsed (JObj fs)) v))"
  using assms by (simp add: checkMacCreds_def propOf_def)

lemma issue_linux_unrecognized:
  assumes "\<not> truthy (propOf (JObj fs) ''claudeAiOauth'')"
    and "\<not> truthy (propOf (JObj fs) ''access_token'')"
  shows "''Linux credentials file has unrecognized format''
           \<in> set (issues (checkLinuxCreds (Parsed (JObj fs)) v))"
  using assms by (simp add: checkLinuxCreds_def propOf_def)

text \<open>
  C6, as stated, fails. A flat-legacy record with both tokens is usable in the
  specification's sense: it resolves to a wrapped record with non-empty tokens. When the
  native macOS export is the only export and holds such a record,
  \<^verbatim>\<open>verifyDownloadedProfile\<close> returns an invalid result, with the issue that the wrapper
  object is missing: in that file it accepts the wrapped form only.
\<close>

theorem verify_rejects_usable_counterexample:
  "mkdirError flatInNative = None \<and> unzipCode flatInNative = 0
   \<and> configStat flatInNative = IsFile \<and> linuxCreds flatInNative = Missing
   \<and> (\<exists>r. macCreds flatInNative = Parsed r \<and> specUsable r)
   \<and> \<not> valid (verifyDownloadedProfile flatInNative)
   \<and> ''macOS credentials missing claudeAiOauth wrapper object''
        \<in> set (issues (verifyDownloadedProfile flatInNative))"
  by (simp add: flatInNative_def specUsable_def convertCredentialsFormat_def wrapLegacy_def
      propOf_def js_or_def verifyDownloadedProfile_def Let_def checkMacCreds_def
      checkLinuxCreds_def checkConfig_def pushIssue_def invalidate_def)

text \<open>
  C6, amended. Once the archive is unpacked, \<^verbatim>\<open>verifyDownloadedProfile\<close> accepts either
  credential export: with the configuration file in place, the result is valid when exactly
  one of the two exports is present and holds a record it accepts, which is a wrapped record
  with non-empty \<^verbatim>\<open>accessToken\<close> and \<^verbatim>\<open>refreshToken\<close> in either file, or a
  flat-legacy record with non-empty \<^verbatim>\<open>access_token\<close> and \<^verbatim>\<open>refresh_token\<close> in the
  generic file only. Every accepted record is usable in the specification's sense; a record
  without the wrapper in the native export, and a record with neither the wrapper nor
  \<^verbatim>\<open>access_token\<close> in the generic file, make the result invalid with an issue of their
  own. When both exports are absent the result is invalid, with the issue that says so; an
  export that is present but cannot be read or parsed makes the result invalid, with an
  issue that names the file and carries the parser's message. In all, the result is valid
  exactly when the configuration file is there, at least one export is present and every
  export present holds an accepted record.
\<close>

theorem verify_accepts_either_export:
  assumes "mkdirError u = None" and "unzipCode u = 0"
  shows "(configStat u = IsFile \<and> acceptedIn False (linuxCreds u) \<and> macCreds u = Missing
            \<longrightarrow> valid (verifyDownloadedProfile u))
       \<and> (configStat u = IsFile \<and> linuxCreds u = Missing \<and> acceptedIn True (macCreds u)
            \<longrightarrow> valid (verifyDownloadedProfile u))
       \<and> (linuxCreds u = Missing \<and> macCreds u = Missing
            \<longrightarrow> \<not> valid (verifyDownloadedProfile u)
              \<and> ''Missing: Claude credentials (no .credentials.json or .macos.credentials.json found)''
                  \<in> set (issues (verifyDownloadedProfile u)))
       \<and> (linuxCreds u = Broken msg
            \<longrightarrow> \<not> valid (verifyDownloadedProfile u)
              \<and> (''Linux credentials file is not valid JSON: '' @ msg)
                  \<in> set (issues (verifyDownloadedProfile u)))
       \<and> (macCreds u = Broken msg
            \<longrightarrow> \<not> valid (verifyDownloadedProfile u)
              \<and> (''macOS credentials file is not valid JSON: '' @ msg)
                  \<in> set (issues (verifyDownloadedProfile u)))
       \<and> valid (verifyDownloadedProfile u) =
            (configStat u = IsFile
             \<and> (linuxCreds u \<noteq> Missing \<or> macCreds u \<noteq> Missing)
             \<and> (linuxCreds u = Missing \<or> acceptedIn False (linuxCreds u))
             \<and> (macCreds u = Missing \<or> acceptedIn True (macCreds u)))
       \<and> (acceptedIn native (Parsed r) \<longrightarrow> specUsable r)
       \<and> (macCreds u = Parsed (JObj fs) \<and> \<not> truthy (propOf (JObj fs) ''claudeAiOauth'')
            \<longrightarrow> \<not> valid (verifyDownloadedProfile u)
              \<and> ''macOS credentials missing claudeAiOauth wrapper object''
                  \<in> set (issues (verifyDownloadedProfile u)))
       \<and> (linuxCreds u = Parsed (JObj fs) \<and> \<not> truthy (propOf (JObj fs) ''claudeAiOauth'')
              \<and> \<not> truthy (propOf (JObj fs) ''access_token'')
            \<longrightarrow> \<not> valid (verifyDownloadedProfile u)
              \<and> ''Linux credentials file has unrecognized format''
                  \<in> set (issues (verifyDownloadedProfile u)))"
proof (intro conjI impI)
  show "valid (verifyDownloadedProfile u) =
            (configStat u = IsFile
             \<and> (linuxCreds u \<noteq> Missing \<or> macCreds u \<noteq> Missing)
             \<and> (linuxCreds u = Missing \<or> acceptedIn False (linuxCreds u))
             \<and> (macCreds u = Missing \<or> acceptedIn True (macCreds u)))"
    using assms by (simp add: valid_verify)
next
  assume "configStat u = IsFile \<and> acceptedIn False (linuxCreds u) \<and> macCreds u = Missing"
  then show "valid (verifyDownloadedProfile u)"
    using assms by (auto simp: valid_verify acceptedIn_def)
next
  assume "configStat u = IsFile \<and> linuxCreds u = Missing \<and> acceptedIn True (macCreds u)"
  then show "valid (verifyDownloadedProfile u)"
    using assms by (auto simp: valid_verify acceptedIn_def)
next
  assume "linuxCreds u = Missing \<and> macCreds u = Missing"
  then show "\<not> valid (verifyDownloadedProfile u)" by (simp add: valid_verify)
next
  assume "linuxCreds u = Missing \<and> macCreds u = Missing"
  then show "''Missing: Claude credentials (no .credentials.json or .macos.credentials.json found)''
                  \<in> set (issues (verifyDownloadedProfile u))"
    using assms by (simp add: verifyDownloadedProfile_def Let_def issues_checkConfig)
next
  assume "linuxCreds u = Broken msg"
  then show "\<not> valid (verifyDownloadedProfile u)" by (simp add: valid_verify acceptedIn_def)
next
  assume b: "linuxCreds u = Broken msg"
  then have "linuxCreds u \<noteq> Missing \<or> macCreds u \<noteq> Missing" by simp
  from verify_unfold [OF assms this] show "(''Linux credentials file is not valid JSON: '' @ msg)
                  \<in> set (issues (verifyDownloadedProfile u))"
    by (simp only: b) (intro issues_checkConfig issues_checkMac issue_linux_broken)
next
  assume "macCreds u = Broken msg"
  then show "\<not> valid (verifyDownloadedProfile u)" by (simp add: valid_verify acceptedIn_def)
next
  assume b: "macCreds u = Broken msg"
  then have "linuxCreds u \<noteq> Missing \<or> macCreds u \<noteq> Missing" by simp
  from verify_unfold [OF assms this] show "(''macOS credentials file is not valid JSON: '' @ msg)
                  \<in> set (issues (verifyDownloadedProfile u))"
    by (simp only: b) (intro issues_checkConfig issue_mac_broken)
next
  assume "acceptedIn native (Parsed r)"
  then show "specUsable r" by (rule accepted_spec)
next
  assume a: "macCreds u = Parsed (JObj fs) \<and> \<not> truthy (propOf (JObj fs) ''claudeAiOauth'')"
  then show "\<not> valid (verifyDownloadedProfile u)"
    by (simp add: valid_verify acceptedIn_def wrappedUsable_def)
  from a have "linuxCreds u \<noteq> Missing \<or> macCreds u \<noteq> Missing" by simp
  from verify_unfold [OF assms this] a
  show "''macOS credentials missing claudeAiOauth wrapper object''
                  \<in> set (issues (verifyDownloadedProfile u))"
    by (simp add: issues_checkConfig issue_mac_nowrapper)
next
  assume a: "linuxCreds u = Parsed (JObj fs) \<and> \<not> truthy (propOf (JObj fs) ''claudeAiOauth'')
              \<and> \<not> truthy (propOf (JObj fs) ''access_token'')"
  then show "\<not> valid (verifyDownloadedProfile u)"
    by (simp add: valid_verify acceptedIn_def wrappedUsable_def flatUsable_def)
  from a have "linuxCreds u \<noteq> Missing \<or> macCreds u \<noteq> Missing" by simp
  from verify_unfold [OF assms this] a
  show "''Linux credentials file has unrecognized format''
                  \<in> set (issues (verifyDownloadedProfile u))"
    by (simp add: issues_checkConfig issues_checkMac issue_linux_unrecognized)
qed

theorem verify_accepts_either_export_witness:
  "valid (verifyDownloadedProfile macProfile)
   \<and> \<not> valid (verifyDownloadedProfile (macProfile\<lparr>macCreds := Missing\<rparr>))
   \<and> \<not> valid (verifyDownloadedProfile (macProfile\<lparr>linuxCreds := Broken ''Unexpected end of JSON input''\<rparr>))
   \<and> ''Linux credentials file is not valid JSON: Unexpected end of JSON input''
        \<in> set (issues (verifyDownloadedProfile
                   (macProfile\<lparr>linuxCreds := Broken ''Unexpected end of JSON input''\<rparr>)))"
  using verify_accepts_either_export [of macProfile "''x''" True JNull "[]"]
    verify_accepts_either_export [of "macProfile\<lparr>macCreds := Missing\<rparr>" "''x''" True JNull "[]"]
    verify_accepts_either_export
      [of "macProfile\<lparr>linuxCreds := Broken ''Unexpected end of JSON input''\<rparr>"
          "''Unexpected end of JSON input''" True JNull "[]"]
  by (simp add: macProfile_def acceptedIn_def wrappedUsable_def propOf_def)

section \<open>The staging directory\<close>

lemma restore_noCreds:
  "restoreProfile ''work'' \<lparr>skipProjects = False\<rparr> noCredsRestore =
     ([FindOrCreateGist, MkdTemp, GistView, GistApi,
       LogError ''Cannot restore profile - verification failed'',
       LogError ''   - Missing: Claude credentials (no .credentials.json or .macos.credentials.json found)'',
       LogError ''Error restoring profile:''],
      Exited 1)"
proof -
  have v: "verifyDownloadedProfile (contents noCredsRestore) =
      \<lparr>valid = False,
       issues = [''Missing: Claude credentials (no .credentials.json or .macos.credentials.json found)'']\<rparr>"
    by (simp add: noCredsRestore_def macProfile_def verifyDownloadedProfile_def Let_def
        checkConfig_def pushIssue_def invalidate_def)
  have n: "validateProfileName ''work'' = skip"
    by (simp add: validateProfileName_def isNameChar_def)
  have body: "restoreProfileBody ''work'' \<lparr>skipProjects = False\<rparr> noCredsRestore =
     ([FindOrCreateGist, MkdTemp, GistView, GistApi,
       LogError ''Cannot restore profile - verification failed'',
       LogError ''   - Missing: Claude credentials (no .credentials.json or .macos.credentials.json found)''],
      Thrown ''Profile verification failed'')"
    unfolding restoreProfileBody_def v n
    by (simp add: noCredsRestore_def findOrCreateGist_def ioR_def logIssues_def seq_def skip_def
        throw_def emit_def)
  show ?thesis
    unfolding restoreProfile_def body
    by (simp add: tryCatch_def startsWith_def seq_emit processExit_def)
qed

text \<open>
  C7 does not hold of \<^verbatim>\<open>saveProfile\<close> and \<^verbatim>\<open>restoreProfile\<close>. Storing a 31 MiB
  archive creates the staging directory, fails the size check and exits with code 1 without
  removing the directory; restoring a profile that fails verification does the same. In
  both functions the removal is the last statement of the \<^verbatim>\<open>try\<close> block and the
  \<^verbatim>\<open>catch\<close> block exits the process. \<^verbatim>\<open>saveProfileSilent\<close>, whose removal is in a
  \<^verbatim>\<open>finally\<close> block, removes the directory on the same input.
\<close>

theorem staging_dir_left_behind:
  "MkdTemp \<in> set (fst (saveProfile ''work'' \<lparr>skipProjects = False\<rparr> bigArchiveEnv))
   \<and> RmTemp \<notin> set (fst (saveProfile ''work'' \<lparr>skipProjects = False\<rparr> bigArchiveEnv))
   \<and> snd (saveProfile ''work'' \<lparr>skipProjects = False\<rparr> bigArchiveEnv) = Exited 1
   \<and> RmTemp \<in> set (fst (saveProfileSilent ''work'' \<lparr>skipProjects = False\<rparr> bigArchiveEnv))
   \<and> MkdTemp \<in> set (fst (restoreProfile ''work'' \<lparr>skipProjects = False\<rparr> noCredsRestore))
   \<and> RmTemp \<notin> set (fst (restoreProfile ''work'' \<lparr>skipProjects = False\<rparr> noCredsRestore))
   \<and> snd (restoreProfile ''work'' \<lparr>skipProjects = False\<rparr> noCredsRestore) = Exited 1"
  using bigArchiveEnv_ok
  by (simp add: saveProfile_tooLarge [OF bigArchiveEnv_exceeds]
      saveProfileSilent_tooLarge [OF bigArchiveEnv_exceeds] restore_noCreds)

end
